theory Spec2Isabelle
  imports Main "HOL-Library.AList"
begin

section \<open>JavaScript values\<close>

text \<open>
  The values exchanged between the ORM, \<^verbatim>\<open>lib/collection.js\<close> and the store driver are
  JSON-like documents. An object is the list of its own enumerable properties; a
  property is read with \<open>map_of\<close> (first match) and deleted with \<open>AList.delete\<close>.
  JavaScript enumerates the keys that are array indices first, in ascending order,
  then the other keys in the order they were written: \<open>enum_order\<close> below puts a list
  in that order, \<open>for_in_keys\<close> enumerates in it, and \<open>obj_set\<close> writes a property and
  leaves the list in it. Where the key written is known and is no array index,
  \<open>AList.update\<close> does the same (in place, or appended when new).
  Numbers are integers (identifiers and counts); \<open>NaN\<close> and fractions are not modelled.
  \<open>JError m\<close> is an \<^verbatim>\<open>Error\<close> object with message \<open>m\<close>. Functions and prototype
  members are outside the data model.
\<close>

datatype jsval =
    JUndefined
  | JNull
  | JBool bool
  | JNum int
  | JStr string
  | JError string
  | JArr "jsval list"
  | JObj "(string \<times> jsval) list"

text \<open>The exceptions the code under study can raise by itself.\<close>

datatype exn = TypeError | ReferenceError

text \<open>JavaScript's \<^verbatim>\<open>ToBoolean\<close>: what \<^verbatim>\<open>if (v)\<close>, \<^verbatim>\<open>!v\<close> and \<^verbatim>\<open>v || w\<close> test.\<close>

fun truthy :: "jsval \<Rightarrow> bool" where
  "truthy JUndefined = False"
| "truthy JNull = False"
| "truthy (JBool b) = b"
| "truthy (JNum n) = (n \<noteq> 0)"
| "truthy (JStr s) = (s \<noteq> [])"
| "truthy (JError m) = True"
| "truthy (JArr xs) = True"
| "truthy (JObj kvs) = True"

text \<open>\<^verbatim>\<open>a || b\<close>.\<close>

definition js_or :: "jsval \<Rightarrow> jsval \<Rightarrow> jsval" where
  "js_or a b = (if truthy a then a else b)"

text \<open>\<^verbatim>\<open>o[k]\<close> on an object: the property's value, \<^verbatim>\<open>undefined\<close> when it has none.\<close>

definition obj_get :: "(string \<times> jsval) list \<Rightarrow> string \<Rightarrow> jsval" where
  "obj_get kvs k = (case map_of kvs k of None \<Rightarrow> JUndefined | Some v \<Rightarrow> v)"

text \<open>The decimal numeral of an array index, as a property key.\<close>

definition digit_char :: "nat \<Rightarrow> char" where
  "digit_char d = ''0123456789'' ! d"

fun show_nat :: "nat \<Rightarrow> string" where
  "show_nat n = (if n < 10 then [digit_char n]
                 else show_nat (n div 10) @ [digit_char (n mod 10)])"

declare show_nat.simps [simp del]

definition index_keys :: "nat \<Rightarrow> string list" where
  "index_keys n = map show_nat [0..<n]"

text \<open>
  A key is an array index when it is the canonical decimal numeral (no sign, no
  leading zero) of a number below \<^verbatim>\<open>4294967295\<close>; \<open>key_index\<close> is that number.
\<close>

definition digit_val :: "char \<Rightarrow> nat" where
  "digit_val c = (case map_of (zip ''0123456789'' [0..<10]) c of None \<Rightarrow> 0 | Some d \<Rightarrow> d)"

fun digits_less :: "string \<Rightarrow> string \<Rightarrow> bool" where
  "digits_less (c # cs) (d # ds) =
     (digit_val c < digit_val d \<or> (digit_val c = digit_val d \<and> digits_less cs ds))"
| "digits_less cs ds = False"

definition key_index :: "string \<Rightarrow> nat option" where
  "key_index k =
     (if k \<noteq> [] \<and> list_all (\<lambda>c. c \<in> set ''0123456789'') k
         \<and> (k = ''0'' \<or> hd k \<noteq> CHR ''0'')
         \<and> (length k < 10 \<or> (length k = 10 \<and> digits_less k ''4294967295''))
      then Some (foldl (\<lambda>a c. 10 * a + digit_val c) 0 k)
      else None)"

text \<open>
  The order in which JavaScript enumerates the own properties of an object: the
  array indices, ascending, then the other keys as they were written (the sort is
  stable). \<^verbatim>\<open>o[k] = v\<close> on an object replaces the value of a property it has, and
  adds the property otherwise.
\<close>

definition index_rank :: "string \<times> 'a \<Rightarrow> nat" where
  "index_rank kv = (case key_index (fst kv) of None \<Rightarrow> 0 | Some i \<Rightarrow> i)"

definition enum_order :: "(string \<times> 'a) list \<Rightarrow> (string \<times> 'a) list" where
  "enum_order kvs =
     sort_key index_rank (filter (\<lambda>kv. key_index (fst kv) \<noteq> None) kvs)
     @ filter (\<lambda>kv. key_index (fst kv) = None) kvs"

definition obj_set :: "(string \<times> 'a) list \<Rightarrow> string \<Rightarrow> 'a \<Rightarrow> (string \<times> 'a) list" where
  "obj_set kvs k v = enum_order (AList.update k v kvs)"

text \<open>
  \<^verbatim>\<open>for (var key in v)\<close>: the enumerable keys of \<open>v\<close>. Nothing is enumerated for
  \<^verbatim>\<open>null\<close>, \<^verbatim>\<open>undefined\<close>, numbers and booleans; arrays and strings enumerate their
  indices; an \<^verbatim>\<open>Error\<close>'s message is not enumerable.
\<close>

fun for_in_keys :: "jsval \<Rightarrow> string list" where
  "for_in_keys (JObj kvs) = map fst (enum_order kvs)"
| "for_in_keys (JArr xs) = index_keys (length xs)"
| "for_in_keys (JStr s) = index_keys (length s)"
| "for_in_keys v = []"

text \<open>
  \<^verbatim>\<open>v[k]\<close> for any value: reading a property of \<^verbatim>\<open>null\<close> or \<^verbatim>\<open>undefined\<close> raises
  a \<^verbatim>\<open>TypeError\<close>; arrays and strings have their indices and \<^verbatim>\<open>length\<close>.
\<close>

fun get_prop :: "jsval \<Rightarrow> string \<Rightarrow> exn + jsval" where
  "get_prop JUndefined k = Inl TypeError"
| "get_prop JNull k = Inl TypeError"
| "get_prop (JObj kvs) k = Inr (obj_get kvs k)"
| "get_prop (JArr xs) k =
     Inr (if k = ''length'' then JNum (int (length xs))
          else obj_get (zip (index_keys (length xs)) xs) k)"
| "get_prop (JStr s) k =
     Inr (if k = ''length'' then JNum (int (length s))
          else obj_get (zip (index_keys (length s)) (map (\<lambda>c. JStr [c]) s)) k)"
| "get_prop (JError m) k = Inr (if k = ''message'' then JStr m else JUndefined)"
| "get_prop (JBool b) k = Inr JUndefined"
| "get_prop (JNum n) k = Inr JUndefined"

section \<open>The collaborators of \<^verbatim>\<open>lib/collection.js\<close>\<close>

text \<open>
  \<^verbatim>\<open>new Query(criteria)\<close> either throws (\<open>Inl\<close> the thrown value) or yields an object
  exposing \<^verbatim>\<open>.criteria\<close>, \<^verbatim>\<open>.aggregate\<close> and \<^verbatim>\<open>.aggregateGroup\<close>. The class lives in
  \<^verbatim>\<open>lib/query.js\<close>, which is not among the sources: the operations take it as a
  parameter of type \<open>jsval \<Rightarrow> jsval + query\<close>.
\<close>

record query =
  criteria :: "(string \<times> jsval) list"
  aggregate :: jsval
  aggregateGroup :: jsval

text \<open>
  The native driver's collection handle, as a state machine over a store of type
  \<open>'s\<close>: each call takes its arguments and the store and answers with the pair
  \<open>(err, result)\<close> its callback receives, and the store after the call.
  \<^verbatim>\<open>find(filter)\<close> with no options passes \<open>None\<close>.
\<close>

record 's driver =
  drv_find :: "jsval \<Rightarrow> jsval option \<Rightarrow> 's \<Rightarrow> (jsval \<times> jsval) \<times> 's"
  drv_aggregate :: "jsval \<Rightarrow> 's \<Rightarrow> (jsval \<times> jsval) \<times> 's"
  drv_insert :: "jsval \<Rightarrow> 's \<Rightarrow> (jsval \<times> jsval) \<times> 's"
  drv_update :: "jsval \<Rightarrow> jsval \<Rightarrow> jsval \<Rightarrow> 's \<Rightarrow> (jsval \<times> jsval) \<times> 's"
  drv_remove :: "jsval \<Rightarrow> 's \<Rightarrow> (jsval \<times> jsval) \<times> 's"

text \<open>
  What an operation does, in order: the connection object it constructs, the
  connection it opens, the collection handle it asks for, the driver calls it issues,
  the close of the database handle, and the invocation \<^verbatim>\<open>cb(err, result)\<close> of the
  caller's callback (\<^verbatim>\<open>cb(err)\<close> passes \<^verbatim>\<open>undefined\<close> as the result).
  \<^verbatim>\<open>connection.open\<close> and \<^verbatim>\<open>database.close\<close> call their continuation once.
\<close>

datatype event =
    ConnNew jsval
  | Open
  | UseCollection string
  | DbFind jsval "jsval option"
  | DbAggregate jsval
  | DbInsert jsval
  | DbUpdate jsval jsval jsval
  | DbRemove jsval
  | Close
  | Callback jsval jsval

text \<open>
  The run of one operation: its events, and the exception that escaped from one of
  its asynchronous continuations, if any (the run stops there).
\<close>

type_synonym run = "event list \<times> exn option"

text \<open>
  Modelled from the spec: \<^verbatim>\<open>utils.rewriteIds\<close> (\<^verbatim>\<open>lib/utils.js\<close> is not among the
  sources). The spec: every record returned by the store is rewritten so that the
  store-native primary identifier \<^verbatim>\<open>_id\<close> becomes the ORM's generic identifier
  \<^verbatim>\<open>id\<close>, for both single records and arrays of records.
\<close>

definition rewriteId :: "jsval \<Rightarrow> jsval" where
  "rewriteId r =
     (case r of
        JObj kvs \<Rightarrow>
          (case map_of kvs ''_id'' of
             None \<Rightarrow> JObj kvs
           | Some v \<Rightarrow> JObj (AList.update ''id'' v (AList.delete ''_id'' kvs)))
      | _ \<Rightarrow> r)"

definition rewriteIds :: "jsval \<Rightarrow> jsval" where
  "rewriteIds v = (case v of JArr rs \<Rightarrow> JArr (map rewriteId rs) | _ \<Rightarrow> rewriteId v)"

section \<open>The heap: objects that are shared and mutated\<close>

text \<open>
  The constructor receives a reference to the caller's definition object, clones it
  and mutates the clone. To say what that does to the caller's object, objects live
  in a heap: a list of objects, an address being an index into it. Allocation
  appends. A value is a primitive or a reference. An object has a kind and the list
  of its own enumerable properties, in enumeration order: it is a plain object or an
  array (an array is an object whose keys are its indices), a function, or an
  \<^verbatim>\<open>Error\<close> object. The kind matters to \<^verbatim>\<open>_.cloneDeep\<close> only. Prototypes,
  properties that are not enumerable and the other kinds of objects (dates, regular
  expressions, maps) are not modelled.
\<close>

type_synonym addr = nat

datatype hval =
    HUndefined
  | HNull
  | HBool bool
  | HNum int
  | HStr string
  | HRef addr

datatype okind = PlainObject | FunctionObject | ErrorObject

type_synonym hobj = "(string \<times> hval) list"

type_synonym heap = "(okind \<times> hobj) list"

fun htruthy :: "hval \<Rightarrow> bool" where
  "htruthy HUndefined = False"
| "htruthy HNull = False"
| "htruthy (HBool b) = b"
| "htruthy (HNum n) = (n \<noteq> 0)"
| "htruthy (HStr s) = (s \<noteq> [])"
| "htruthy (HRef a) = True"

text \<open>
  The properties and the kind of the object at an address (a live reference is
  always below the heap's length).
\<close>

definition heap_at :: "heap \<Rightarrow> addr \<Rightarrow> hobj" where
  "heap_at h a = (if a < length h then snd (h ! a) else [])"

definition kind_at :: "heap \<Rightarrow> addr \<Rightarrow> okind" where
  "kind_at h a = (if a < length h then fst (h ! a) else PlainObject)"

definition hobj_get :: "hobj \<Rightarrow> string \<Rightarrow> hval" where
  "hobj_get ps k = (case map_of ps k of None \<Rightarrow> HUndefined | Some v \<Rightarrow> v)"

text \<open>\<^verbatim>\<open>v[k]\<close> and \<^verbatim>\<open>v.k\<close> on the heap.\<close>

fun hget :: "heap \<Rightarrow> hval \<Rightarrow> string \<Rightarrow> exn + hval" where
  "hget h HUndefined k = Inl TypeError"
| "hget h HNull k = Inl TypeError"
| "hget h (HRef a) k = Inr (hobj_get (heap_at h a) k)"
| "hget h (HStr s) k =
     Inr (if k = ''length'' then HNum (int (length s))
          else hobj_get (zip (index_keys (length s)) (map (\<lambda>c. HStr [c]) s)) k)"
| "hget h (HBool b) k = Inr HUndefined"
| "hget h (HNum n) k = Inr HUndefined"

text \<open>
  \<^verbatim>\<open>Object.keys(v)\<close> (ES2015): a \<^verbatim>\<open>TypeError\<close> for \<^verbatim>\<open>null\<close> and \<^verbatim>\<open>undefined\<close>, the
  own enumerable keys of an object, the indices of a string, nothing for a number or
  a boolean.
\<close>

fun object_keys :: "heap \<Rightarrow> hval \<Rightarrow> exn + string list" where
  "object_keys h HUndefined = Inl TypeError"
| "object_keys h HNull = Inl TypeError"
| "object_keys h (HRef a) = Inr (map fst (heap_at h a))"
| "object_keys h (HStr s) = Inr (index_keys (length s))"
| "object_keys h (HBool b) = Inr []"
| "object_keys h (HNum n) = Inr []"


subsection \<open>\<^verbatim>\<open>_.cloneDeep\<close>\<close>

text \<open>
  lodash's \<^verbatim>\<open>cloneDeep\<close> (an external library), on a value met inside the value being
  cloned: a primitive is returned as it is; a function or an \<^verbatim>\<open>Error\<close> object is not
  cloned either, the clone holds the reference to the original itself; for a plain
  object or an array a new object is allocated and recorded as the clone of the
  original, then each property is cloned in turn into it. A plain object met again
  (shared, or on a cycle) is answered with the clone already recorded for it. The
  recursion is bounded by fuel; \<open>None\<close> means the fuel ran out.
\<close>

record cstate =
  seen :: "(addr \<times> addr) list"
  cur :: heap



section \<open>The Collection constructor\<close>

record collection =
  identity :: string
  config :: jsval
  schema :: hval
  indexes :: "jsval list"



text \<open>
  \<^verbatim>\<open>buildIndexes\<close>: one pass over \<^verbatim>\<open>Object.keys(this.schema)\<close>; the unique branch
  returns from the iteration before the index branch is looked at.
\<close>

definition index_descriptor :: "string \<Rightarrow> bool \<Rightarrow> jsval" where
  "index_descriptor key uniq =
     JObj [(''index'', JObj [(key, JNum 1)]),
           (''options'',
            JObj (if uniq then [(''sparse'', JBool True), (''unique'', JBool True)]
                  else [(''sparse'', JBool True)]))]"

fun buildIndexes_loop :: "heap \<Rightarrow> hval \<Rightarrow> string list \<Rightarrow> jsval list \<Rightarrow> exn + jsval list" where
  "buildIndexes_loop h sch [] acc = Inr acc"
| "buildIndexes_loop h sch (key # keys) acc =
     (case hget h sch key of
        Inl e \<Rightarrow> Inl e
      | Inr f \<Rightarrow>
          (case hget h f ''unique'' of
             Inl e \<Rightarrow> Inl e
           | Inr u \<Rightarrow>
               if htruthy u
               then buildIndexes_loop h sch keys (acc @ [index_descriptor key True])
               else
                 (case hget h f ''index'' of
                    Inl e \<Rightarrow> Inl e
                  | Inr i \<Rightarrow>
                      if htruthy i
                      then buildIndexes_loop h sch keys (acc @ [index_descriptor key False])
                      else buildIndexes_loop h sch keys acc)))"

definition buildIndexes :: "heap \<Rightarrow> collection \<Rightarrow> exn + collection" where
  "buildIndexes h self =
     (case object_keys h (schema self) of
        Inl e \<Rightarrow> Inl e
      | Inr keys \<Rightarrow>
          (case buildIndexes_loop h (schema self) keys (indexes self) of
             Inl e \<Rightarrow> Inl e
           | Inr ixs \<Rightarrow> Inr (self\<lparr>indexes := ixs\<rparr>)))"


section \<open>The operations\<close>

text \<open>
  \<^verbatim>\<open>new Document(values, schema).values\<close> (\<^verbatim>\<open>lib/document.js\<close>, not among the sources)
  is the parameter \<open>Document\<close>: it yields the object the schema shapes the values
  into. \<^verbatim>\<open>new Query(criteria)\<close> is the parameter \<open>Query\<close>.
\<close>

text \<open>
  The head of every run that reaches \<^verbatim>\<open>connection.open\<close>: the connection object,
  the open, and \<^verbatim>\<open>connection.database.collection(self.identity)\<close>.
\<close>

definition opened :: "collection \<Rightarrow> event list" where
  "opened self = [ConnNew (config self), Open, UseCollection (identity self)]"

text \<open>
  The aggregate branch of \<^verbatim>\<open>find\<close> maps every result:
  \<^verbatim>\<open>for(var key in result._id) { result[key] = result._id[key]; } delete result._id;\<close>
  The keys are those of the group identifier as it is when the loop starts, in
  enumeration order; the body reads \<^verbatim>\<open>result._id\<close> again at every turn, so once a key
  named \<^verbatim>\<open>_id\<close> has been copied the later keys are read from the copied value.
\<close>

fun extract_keys :: "(string \<times> jsval) list \<Rightarrow> string list \<Rightarrow> exn + (string \<times> jsval) list" where
  "extract_keys res [] = Inr res"
| "extract_keys res (key # keys) =
     (case get_prop (obj_get res ''_id'') key of
        Inl e \<Rightarrow> Inl e
      | Inr v \<Rightarrow> extract_keys (obj_set res key v) keys)"

fun extract_grouped :: "jsval \<Rightarrow> exn + jsval" where
  "extract_grouped JUndefined = Inl TypeError"
| "extract_grouped JNull = Inl TypeError"
| "extract_grouped (JObj res) =
     (case extract_keys res (for_in_keys (obj_get res ''_id'')) of
        Inl e \<Rightarrow> Inl e
      | Inr res' \<Rightarrow> Inr (JObj (AList.delete ''_id'' res')))"
| "extract_grouped v = Inr v"

text \<open>\<^verbatim>\<open>xs.map(f)\<close> for an \<open>f\<close> that may raise: the first exception ends the map.\<close>

fun map_raising :: "('a \<Rightarrow> exn + 'b) \<Rightarrow> 'a list \<Rightarrow> exn + 'b list" where
  "map_raising f [] = Inr []"
| "map_raising f (x # xs) =
     (case f x of
        Inl e \<Rightarrow> Inl e
      | Inr y \<Rightarrow> (case map_raising f xs of Inl e \<Rightarrow> Inl e | Inr ys \<Rightarrow> Inr (y # ys)))"

text \<open>\<^verbatim>\<open>results.map(...)\<close>: only an array has \<^verbatim>\<open>map\<close>.\<close>

fun map_results :: "jsval \<Rightarrow> exn + jsval" where
  "map_results (JArr rs) =
     (case map_raising extract_grouped rs of Inl e \<Rightarrow> Inl e | Inr ms \<Rightarrow> Inr (JArr ms))"
| "map_results v = Inl TypeError"

definition Collection_find ::
  "(jsval \<Rightarrow> jsval + query) \<Rightarrow> 's driver \<Rightarrow> collection \<Rightarrow> jsval \<Rightarrow> 's \<Rightarrow> run \<times> 's" where
  "Collection_find Query drv self crit s =
     (case Query crit of
        Inl err \<Rightarrow> (([ConnNew (config self), Callback err JUndefined], None), s)
      | Inr q \<Rightarrow>
          if truthy (aggregate q) then
            (let pipeline = JArr [JObj [(''$match'', js_or (obj_get (criteria q) ''where'') (JObj []))],
                                  JObj [(''$group'', aggregateGroup q)]];
                 ((err, results), s1) = drv_aggregate drv pipeline s;
                 evs = opened self @ [DbAggregate pipeline, Close]
             in case map_results results of
                  Inl e \<Rightarrow> ((evs, Some e), s1)
                | Inr mapped \<Rightarrow> ((evs @ [Callback err mapped], None), s1))
          else
            (let wh = js_or (obj_get (criteria q) ''where'') (JObj []);
                 queryOptions = JObj (AList.delete ''where'' (criteria q));
                 ((err, docs), s1) = drv_find drv wh (Some queryOptions) s;
                 evs = opened self @ [DbFind wh (Some queryOptions), Close]
             in if truthy err then ((evs @ [Callback err JUndefined], None), s1)
                else ((evs @ [Callback JNull (rewriteIds docs)], None), s1)))"

text \<open>\<^verbatim>\<open>if(!_.isArray(values)) values = [values];\<close>\<close>

definition to_array :: "jsval \<Rightarrow> jsval list" where
  "to_array vals = (case vals of JArr xs \<Rightarrow> xs | _ \<Rightarrow> [vals])"

definition Collection_insert ::
  "(jsval \<Rightarrow> hval \<Rightarrow> (string \<times> jsval) list) \<Rightarrow> 's driver \<Rightarrow> collection \<Rightarrow> jsval \<Rightarrow> 's
     \<Rightarrow> run \<times> 's" where
  "Collection_insert Document drv self vals s =
     (let docs = JArr (map (\<lambda>v. JObj (Document v (schema self))) (to_array vals));
          ((err, results), s1) = drv_insert drv docs s;
          evs = opened self @ [DbInsert docs, Close]
      in if truthy err then ((evs @ [Callback err JUndefined], None), s1)
         else ((evs @ [Callback JNull (rewriteIds results)], None), s1))"

text \<open>
  \<^verbatim>\<open>if(values.id) delete values.id; if(values._id) delete values._id;\<close>
\<close>

definition strip_ids :: "(string \<times> jsval) list \<Rightarrow> (string \<times> jsval) list" where
  "strip_ids vals =
     (let v1 = (if truthy (obj_get vals ''id'') then AList.delete ''id'' vals else vals)
      in if truthy (obj_get v1 ''_id'') then AList.delete ''_id'' v1 else v1)"

text \<open>
  \<^verbatim>\<open>records.forEach(function(record) { updatedRecords.push(record._id); });\<close>
  Only an array has \<^verbatim>\<open>forEach\<close>.
\<close>

fun collect_ids :: "jsval \<Rightarrow> exn + jsval list" where
  "collect_ids (JArr rs) = map_raising (\<lambda>r. get_prop r ''_id'') rs"
| "collect_ids v = Inl TypeError"

definition Collection_update ::
  "(jsval \<Rightarrow> jsval + query) \<Rightarrow> (jsval \<Rightarrow> hval \<Rightarrow> (string \<times> jsval) list) \<Rightarrow> 's driver
     \<Rightarrow> collection \<Rightarrow> jsval \<Rightarrow> jsval \<Rightarrow> 's \<Rightarrow> run \<times> 's" where
  "Collection_update Query Document drv self crit vals s =
     (case Query crit of
        Inl err \<Rightarrow> (([ConnNew (config self), Callback err JUndefined], None), s)
      | Inr q \<Rightarrow>
          (let vals' = strip_ids (Document vals (schema self));
               wh = obj_get (criteria q) ''where'';
               ((err, records), s1) = drv_find drv wh None s;
               evs1 = opened self @ [DbFind wh None]
           in if truthy err then ((evs1 @ [Close, Callback err JUndefined], None), s1)
              else if \<not> truthy records then
                ((evs1 @ [Close,
                          Callback (JError ''Could not find any records to update'') JUndefined],
                  None), s1)
              else
                (case collect_ids records of
                   Inl e \<Rightarrow> ((evs1, Some e), s1)
                 | Inr updatedRecords \<Rightarrow>
                     (let upd = JObj [(''$set'', JObj vals')];
                          opts = JObj [(''multi'', JBool True)];
                          ((err2, result), s2) = drv_update drv wh upd opts s1;
                          evs2 = evs1 @ [DbUpdate wh upd opts]
                      in if truthy err2 then ((evs2 @ [Close, Callback err2 JUndefined], None), s2)
                         else
                           (let flt = JObj [(''_id'', JObj [(''$in'', JArr updatedRecords)])];
                                ((err3, records3), s3) = drv_find drv flt None s2;
                                evs3 = evs2 @ [DbFind flt None, Close]
                            in if truthy err3 then ((evs3 @ [Callback err3 JUndefined], None), s3)
                               else ((evs3 @ [Callback JNull (rewriteIds records3)], None), s3))))))"

text \<open>
  \<^verbatim>\<open>destroy\<close>. When the driver's result is an array, the last statement,
  \<^verbatim>\<open>cb(null, utils.rewriteIds(resultArray))\<close>, reads the variable \<^verbatim>\<open>resultArray\<close>, which
  is declared nowhere (the array built is \<^verbatim>\<open>resultsArray\<close>): evaluating the argument
  raises a \<^verbatim>\<open>ReferenceError\<close> before \<^verbatim>\<open>rewriteIds\<close> or \<^verbatim>\<open>cb\<close> is called.
\<close>

definition Collection_destroy ::
  "(jsval \<Rightarrow> jsval + query) \<Rightarrow> 's driver \<Rightarrow> collection \<Rightarrow> jsval \<Rightarrow> 's \<Rightarrow> run \<times> 's" where
  "Collection_destroy Query drv self crit s =
     (case Query crit of
        Inl err \<Rightarrow> (([ConnNew (config self), Callback err JUndefined], None), s)
      | Inr q \<Rightarrow>
          (let wh = obj_get (criteria q) ''where'';
               ((err, results), s1) = drv_remove drv wh s;
               evs = opened self @ [DbRemove wh, Close]
           in if truthy err then ((evs @ [Callback err JUndefined], None), s1)
              else
                (case results of
                   JArr rs \<Rightarrow> ((evs, Some ReferenceError), s1)
                 | _ \<Rightarrow> ((evs @ [Callback JNull (JArr [JObj [(''id'', results)]])], None), s1))))"

section \<open>Sample collaborators\<close>

text \<open>
  Concrete instances of the parameters, for the examples: a driver that answers the
  calls it receives with the replies of a script, in order; a \<open>Query\<close> that accepts
  an object as it is and throws on anything else; a \<open>Document\<close> that keeps the fields
  of an object as they are and does not look at the schema; a collection instance.
\<close>

definition next_reply :: "(jsval \<times> jsval) list \<Rightarrow> (jsval \<times> jsval) \<times> (jsval \<times> jsval) list" where
  "next_reply rs = (case rs of [] \<Rightarrow> ((JUndefined, JUndefined), []) | r # rs' \<Rightarrow> (r, rs'))"

definition scripted :: "(jsval \<times> jsval) list driver" where
  "scripted =
     \<lparr>drv_find = (\<lambda>flt opts. next_reply),
      drv_aggregate = (\<lambda>pipeline. next_reply),
      drv_insert = (\<lambda>docs. next_reply),
      drv_update = (\<lambda>flt upd opts. next_reply),
      drv_remove = (\<lambda>flt. next_reply)\<rparr>"

definition plain_Query :: "jsval \<Rightarrow> jsval + query" where
  "plain_Query c =
     (case c of
        JObj kvs \<Rightarrow> Inr \<lparr>criteria = kvs, aggregate = JBool False, aggregateGroup = JUndefined\<rparr>
      | _ \<Rightarrow> Inl (JError ''Invalid criteria''))"

definition plain_Document :: "jsval \<Rightarrow> hval \<Rightarrow> (string \<times> jsval) list" where
  "plain_Document v sch = (case v of JObj kvs \<Rightarrow> kvs | _ \<Rightarrow> [])"

definition users :: collection where
  "users = \<lparr>identity = ''user'', config = JObj [(''database'', JStr ''app'')],
            schema = HNull, indexes = []\<rparr>"

text \<open>A \<open>Query\<close> that answers every criteria with one aggregation request.\<close>

definition grouping_Query :: "jsval \<Rightarrow> jsval + query" where
  "grouping_Query c =
     Inr \<lparr>criteria = [(''where'', JObj [(''active'', JBool True)])],
          aggregate = JBool True,
          aggregateGroup = JObj [(''_id'', JObj [(''name'', JStr ''$name'')]),
                                 (''total'', JObj [(''$sum'', JNum 1)])]\<rparr>"



text \<open>
  A caller's heap for the examples: a definition object (address 0) with its
  \<^verbatim>\<open>config\<close> (1) and its schema (2), whose fields \<^verbatim>\<open>id\<close> (3) and \<^verbatim>\<open>email\<close> (4) carry
  flags; and a \<open>parseUrl\<close> that throws on \<^verbatim>\<open>null\<close> and \<^verbatim>\<open>undefined\<close>, and for a
  plain configuration object with a string \<^verbatim>\<open>url\<close> writes a \<^verbatim>\<open>host\<close> into it.
\<close>

definition sample_heap :: heap where
  "sample_heap =
     [(PlainObject,
       [(''identity'', HStr ''User''), (''config'', HRef 1), (''definition'', HRef 2)]),
      (PlainObject, [(''url'', HStr ''mongodb://localhost/app'')]),
      (PlainObject, [(''id'', HRef 3), (''email'', HRef 4)]),
      (PlainObject,
       [(''type'', HStr ''integer''), (''autoIncrement'', HBool True), (''unique'', HBool True),
        (''index'', HBool True)]),
      (PlainObject, [(''type'', HStr ''string''), (''index'', HBool True)])]"






section \<open>Auxiliary predicates\<close>


text \<open>\<open>on_field key d\<close>: the index descriptor \<open>d\<close> indexes the one field \<open>key\<close>.\<close>

definition on_field :: "string \<Rightarrow> jsval \<Rightarrow> bool" where
  "on_field key d \<longleftrightarrow> (\<exists>opts. d = JObj [(''index'', JObj [(key, JNum 1)]), (''options'', opts)])"

text \<open>
  Invariants of the clone, relative to the caller's heap \<open>h\<close>. A value is fresh when
  it is a primitive or refers to an object allocated by the call (at the length of
  \<open>h\<close> or above); it is a clone's value when it is fresh or refers to a function or an
  \<^verbatim>\<open>Error\<close> object of the caller. The allocated part of a heap is closed when its
  objects hold clone's values only. \<open>clone_inv h st\<close>: the caller's heap \<open>h\<close> is a prefix
  of the current heap, the allocated part is closed, and every recorded clone is
  fresh.
\<close>

definition fresh_val :: "nat \<Rightarrow> hval \<Rightarrow> bool" where
  "fresh_val n v \<longleftrightarrow> (case v of HRef b \<Rightarrow> n \<le> b | _ \<Rightarrow> True)"

definition clone_val :: "heap \<Rightarrow> hval \<Rightarrow> bool" where
  "clone_val h v \<longleftrightarrow> (case v of HRef b \<Rightarrow> length h \<le> b \<or> kind_at h b \<noteq> PlainObject | _ \<Rightarrow> True)"

definition clone_props :: "heap \<Rightarrow> hobj \<Rightarrow> bool" where
  "clone_props h ps \<longleftrightarrow> list_all (\<lambda>kv. clone_val h (snd kv)) ps"









definition unseen :: "nat \<Rightarrow> cstate \<Rightarrow> addr set" where
  "unseen n st = {a. a < n \<and> map_of (seen st) a = None}"

section \<open>Properties of the operations\<close>

subsection \<open>Malformed criteria\<close>

text \<open>
  C7. When \<^verbatim>\<open>new Query(criteria)\<close> throws, \<^verbatim>\<open>find\<close>, \<^verbatim>\<open>update\<close> and \<^verbatim>\<open>destroy\<close> hand the thrown
  value to the callback and do nothing else: the run holds the construction of the
  connection object and the callback, no open, no driver call, no escaping exception,
  and the store is untouched.
\<close>

theorem malformed_criteria_reported:
  assumes "Query crit = Inl err"
  shows "Collection_find Query drv self crit s
           = (([ConnNew (config self), Callback err JUndefined], None), s)
       \<and> Collection_update Query Document drv self crit vals s
           = (([ConnNew (config self), Callback err JUndefined], None), s)
       \<and> Collection_destroy Query drv self crit s
           = (([ConnNew (config self), Callback err JUndefined], None), s)"
  using assms by (simp add: Collection_find_def Collection_update_def Collection_destroy_def)

theorem malformed_criteria_reported_witness:
  "plain_Query (JStr ''nonsense'') = Inl (JError ''Invalid criteria'')
   \<and> Collection_find plain_Query scripted users (JStr ''nonsense'') [(JNull, JArr [])]
       = (([ConnNew (JObj [(''database'', JStr ''app'')]),
            Callback (JError ''Invalid criteria'') JUndefined], None), [(JNull, JArr [])])
   \<and> Collection_update plain_Query plain_Document scripted users (JStr ''nonsense'')
         (JObj [(''name'', JStr ''b'')]) [(JNull, JArr [])]
       = (([ConnNew (JObj [(''database'', JStr ''app'')]),
            Callback (JError ''Invalid criteria'') JUndefined], None), [(JNull, JArr [])])
   \<and> Collection_destroy plain_Query scripted users (JStr ''nonsense'') [(JNull, JNum 1)]
       = (([ConnNew (JObj [(''database'', JStr ''app'')]),
            Callback (JError ''Invalid criteria'') JUndefined], None), [(JNull, JNum 1)])"
proof -
  have q: "plain_Query (JStr ''nonsense'') = Inl (JError ''Invalid criteria'')"
    by (simp add: plain_Query_def)
  note t = malformed_criteria_reported [where Query = plain_Query and crit = "JStr ''nonsense''"
      and err = "JError ''Invalid criteria''" and drv = scripted and self = users
      and Document = plain_Document and vals = "JObj [(''name'', JStr ''b'')]"]
  show ?thesis
    using q t [OF q, of "[(JNull, JArr [])]"] t [OF q, of "[(JNull, JNum 1)]"]
    by (simp add: users_def)
qed

subsection \<open>The plain query of \<^verbatim>\<open>find\<close>\<close>

text \<open>
  C3. When the criteria parse and carry no aggregate flag, \<^verbatim>\<open>find\<close> issues exactly one
  driver call, a \<^verbatim>\<open>find\<close>, whose filter is the \<^verbatim>\<open>where\<close> sub-object of the parsed criteria
  (the empty object when there is no \<^verbatim>\<open>where\<close>) and whose options hold every other key
  of the criteria, with its value, and no \<^verbatim>\<open>where\<close>.
\<close>

theorem find_plain_query:
  assumes "Query crit = Inr q" and "\<not> truthy (aggregate q)"
  shows "\<exists>wh opts e r s1.
           Collection_find Query drv self crit s
             = (([ConnNew (config self), Open, UseCollection (identity self),
                  DbFind wh (Some (JObj opts)), Close, Callback e r], None), s1)
         \<and> (\<forall>w. map_of (criteria q) ''where'' = Some (JObj w) \<longrightarrow> wh = JObj w)
         \<and> (map_of (criteria q) ''where'' = None \<longrightarrow> wh = JObj [])
         \<and> (\<forall>k. map_of opts k = (if k = ''where'' then None else map_of (criteria q) k))"
proof -
  let ?wh = "js_or (obj_get (criteria q) ''where'') (JObj [])"
  let ?opts = "AList.delete ''where'' (criteria q)"
  obtain err docs s1 where d: "drv_find drv ?wh (Some (JObj ?opts)) s = ((err, docs), s1)"
    by (metis prod.exhaust)
  have run: "\<exists>e r. Collection_find Query drv self crit s
      = (([ConnNew (config self), Open, UseCollection (identity self),
           DbFind ?wh (Some (JObj ?opts)), Close, Callback e r], None), s1)"
    using assms d by (simp add: Collection_find_def Let_def opened_def)
  have w1: "\<forall>w. map_of (criteria q) ''where'' = Some (JObj w) \<longrightarrow> ?wh = JObj w"
    by (simp add: js_or_def obj_get_def)
  have w2: "map_of (criteria q) ''where'' = None \<longrightarrow> ?wh = JObj []"
    by (simp add: js_or_def obj_get_def)
  have o: "\<forall>k. map_of ?opts k = (if k = ''where'' then None else map_of (criteria q) k)"
    by (simp add: delete_conv')
  from run obtain e r where r: "Collection_find Query drv self crit s
      = (([ConnNew (config self), Open, UseCollection (identity self),
           DbFind ?wh (Some (JObj ?opts)), Close, Callback e r], None), s1)"
    by blast
  show ?thesis
    apply (rule exI [of _ ?wh])
    apply (rule exI [of _ ?opts])
    apply (rule exI [of _ e])
    apply (rule exI [of _ r])
    apply (rule exI [of _ s1])
    using r w1 w2 o apply simp
    done
qed

theorem find_plain_query_witness:
  "plain_Query (JObj [(''where'', JObj [(''name'', JStr ''a'')]), (''limit'', JNum 10)])
     = Inr \<lparr>criteria = [(''where'', JObj [(''name'', JStr ''a'')]), (''limit'', JNum 10)],
            aggregate = JBool False, aggregateGroup = JUndefined\<rparr>
   \<and> (\<exists>opts e r s1.
         Collection_find plain_Query scripted users
             (JObj [(''where'', JObj [(''name'', JStr ''a'')]), (''limit'', JNum 10)])
             [(JNull, JArr [])]
           = (([ConnNew (config users), Open, UseCollection (identity users),
                DbFind (JObj [(''name'', JStr ''a'')]) (Some (JObj opts)), Close, Callback e r],
               None), s1)
         \<and> map_of opts ''limit'' = Some (JNum 10) \<and> map_of opts ''where'' = None)"
proof -
  let ?c = "JObj [(''where'', JObj [(''name'', JStr ''a'')]), (''limit'', JNum 10)]"
  let ?q = "\<lparr>criteria = [(''where'', JObj [(''name'', JStr ''a'')]), (''limit'', JNum 10)],
             aggregate = JBool False, aggregateGroup = JUndefined\<rparr>"
  have q: "plain_Query ?c = Inr ?q"
    by (simp add: plain_Query_def)
  have na: "\<not> truthy (aggregate ?q)"
    by simp
  obtain wh opts e r s1 where
    run: "Collection_find plain_Query scripted users ?c [(JNull, JArr [])]
            = (([ConnNew (config users), Open, UseCollection (identity users),
                 DbFind wh (Some (JObj opts)), Close, Callback e r], None), s1)"
    and w: "\<forall>w. map_of (criteria ?q) ''where'' = Some (JObj w) \<longrightarrow> wh = JObj w"
    and o: "\<forall>k. map_of opts k = (if k = ''where'' then None else map_of (criteria ?q) k)"
    using find_plain_query [where Query = plain_Query and drv = scripted and self = users
        and s = "[(JNull, JArr [])]", OF q na] by blast
  have "wh = JObj [(''name'', JStr ''a'')]"
    using w by simp
  moreover have "map_of opts ''limit'' = Some (JNum 10)" and "map_of opts ''where'' = None"
    using o by simp_all
  ultimately show ?thesis
    using q run by blast
qed

subsection \<open>The aggregate branch of \<^verbatim>\<open>find\<close>\<close>

lemma map_raising_all_Inr:
  "(\<And>x. x \<in> set xs \<Longrightarrow> f x = Inr (g x)) \<Longrightarrow> map_raising f xs = Inr (map g xs)"
  by (induction xs) auto

lemma map_of_insort_key:
  assumes "\<And>kv. f kv = g (fst kv)"
  shows "map_of (insort_key f (k, v) xs) = (map_of xs)(k \<mapsto> v)"
proof (induction xs)
  case Nil
  then show ?case by simp
next
  case (Cons y ys)
  show ?case
  proof (cases "f (k, v) \<le> f y")
    case True
    then show ?thesis
      by (cases y) (auto simp: fun_eq_iff)
  next
    case False
    then have "g k \<noteq> g (fst y)"
      using assms [of "(k, v)"] assms [of y] by auto
    then have "fst y \<noteq> k"
      by auto
    then show ?thesis
      using False Cons.IH by (cases y) (auto simp: fun_eq_iff)
  qed
qed

lemma map_of_sort_key:
  assumes "\<And>kv. f kv = g (fst kv)"
  shows "map_of (sort_key f xs) = map_of xs"
proof (induction xs)
  case Nil
  then show ?case by simp
next
  case (Cons x xs)
  obtain k v where x: "x = (k, v)"
    by (cases x)
  show ?case
    using map_of_insort_key [of f g k v "sort_key f xs", OF assms] Cons.IH
    by (simp add: x)
qed

lemma map_of_filter_key:
  "map_of (filter (\<lambda>kv. P (fst kv)) xs) k = (if P k then map_of xs k else None)"
  by (induction xs) auto

lemma map_of_enum_order [simp]:
  "map_of (enum_order kvs) = map_of kvs"
proof
  fix k
  have r: "\<And>kv::string \<times> 'a. index_rank kv = (case key_index (fst kv) of None \<Rightarrow> 0 | Some i \<Rightarrow> i)"
    by (simp add: index_rank_def)
  have s: "map_of (sort_key index_rank (filter (\<lambda>kv. key_index (fst kv) \<noteq> None) kvs))
         = map_of (filter (\<lambda>kv. key_index (fst kv) \<noteq> None) kvs)"
    by (rule map_of_sort_key [where g = "\<lambda>k. case key_index k of None \<Rightarrow> 0 | Some i \<Rightarrow> i"]) (rule r)
  show "map_of (enum_order kvs) k = map_of kvs k"
    unfolding enum_order_def map_of_append s
    using map_of_filter_key [of "\<lambda>k. key_index k \<noteq> None" kvs k]
      map_of_filter_key [of "\<lambda>k. key_index k = None" kvs k]
    by (auto simp: map_add_def split: option.splits)
qed

lemma set_enum_order [simp]:
  "set (enum_order kvs) = set kvs"
  by (auto simp: enum_order_def)








subsection \<open>\<^verbatim>\<open>insert\<close>\<close>

lemma rewriteId_with_id:
  assumes "map_of kvs ''_id'' = Some i"
  shows "\<exists>m. rewriteId (JObj kvs) = JObj m \<and> map_of m ''_id'' = None \<and> map_of m ''id'' = Some i
           \<and> (\<forall>k. k \<noteq> ''id'' \<and> k \<noteq> ''_id'' \<longrightarrow> map_of m k = map_of kvs k)"
  using assms by (simp add: rewriteId_def update_conv' delete_conv')

text \<open>
  C4. \<^verbatim>\<open>insert\<close> persists the input with one driver call, as one batch, and closes the
  handle: a list is sent as the list of its shaped values, in input order, and a
  value that is not a list is sent as a batch of one, its shaped value. When the
  store answers without error with one record per document of the batch, each
  carrying its native \<^verbatim>\<open>_id\<close>, the callback receives a list with one entry per input
  value (a list of one for a single value), each with the identifier under \<^verbatim>\<open>id\<close> and
  no \<^verbatim>\<open>_id\<close>, its other fields kept.
\<close>

theorem insert_batch_rewritten:
  "\<exists>batch err res s1 tail.
     Collection_insert Document drv self vals s
       = (([ConnNew (config self), Open, UseCollection (identity self),
            DbInsert (JArr batch), Close] @ tail, None), s1)
   \<and> drv_insert drv (JArr batch) s = ((err, res), s1)
   \<and> (\<forall>xs. vals = JArr xs \<longrightarrow> batch = map (\<lambda>v. JObj (Document v (schema self))) xs)
   \<and> ((\<forall>xs. vals \<noteq> JArr xs) \<longrightarrow> batch = [JObj (Document vals (schema self))])
   \<and> (\<forall>rs. \<not> truthy err \<and> res = JArr rs \<and> length rs = length batch
            \<and> (\<forall>r \<in> set rs. \<exists>kvs i. r = JObj kvs \<and> map_of kvs ''_id'' = Some i)
        \<longrightarrow> (\<exists>out. tail = [Callback JNull (JArr out)]
              \<and> (\<forall>xs. vals = JArr xs \<longrightarrow> length out = length xs)
              \<and> ((\<forall>xs. vals \<noteq> JArr xs) \<longrightarrow> length out = 1)
              \<and> (\<forall>n < length out. \<exists>kvs i m. rs ! n = JObj kvs \<and> map_of kvs ''_id'' = Some i
                    \<and> out ! n = JObj m \<and> map_of m ''_id'' = None \<and> map_of m ''id'' = Some i
                    \<and> (\<forall>k. k \<noteq> ''id'' \<and> k \<noteq> ''_id'' \<longrightarrow> map_of m k = map_of kvs k))))"
proof -
  define batch where "batch = map (\<lambda>v. JObj (Document v (schema self))) (to_array vals)"
  obtain err res s1 where d: "drv_insert drv (JArr batch) s = ((err, res), s1)"
    by (metis prod.exhaust)
  define tail where
    "tail = (if truthy err then [Callback err JUndefined] else [Callback JNull (rewriteIds res)])"
  have run: "Collection_insert Document drv self vals s
       = (([ConnNew (config self), Open, UseCollection (identity self),
            DbInsert (JArr batch), Close] @ tail, None), s1)"
    using d by (simp add: Collection_insert_def Let_def opened_def batch_def tail_def)
  have b1: "\<forall>xs. vals = JArr xs \<longrightarrow> batch = map (\<lambda>v. JObj (Document v (schema self))) xs"
    by (simp add: batch_def to_array_def)
  have b2: "(\<forall>xs. vals \<noteq> JArr xs) \<longrightarrow> batch = [JObj (Document vals (schema self))]"
    by (cases vals) (simp_all add: batch_def to_array_def)
  have res: "\<exists>out. tail = [Callback JNull (JArr out)]
              \<and> (\<forall>xs. vals = JArr xs \<longrightarrow> length out = length xs)
              \<and> ((\<forall>xs. vals \<noteq> JArr xs) \<longrightarrow> length out = 1)
              \<and> (\<forall>n < length out. \<exists>kvs i m. rs ! n = JObj kvs \<and> map_of kvs ''_id'' = Some i
                    \<and> out ! n = JObj m \<and> map_of m ''_id'' = None \<and> map_of m ''id'' = Some i
                    \<and> (\<forall>k. k \<noteq> ''id'' \<and> k \<noteq> ''_id'' \<longrightarrow> map_of m k = map_of kvs k))"
    if ok: "\<not> truthy err" and r: "res = JArr rs" and len: "length rs = length batch"
      and ids: "\<forall>r \<in> set rs. \<exists>kvs i. r = JObj kvs \<and> map_of kvs ''_id'' = Some i" for rs
  proof -
    have t: "tail = [Callback JNull (JArr (map rewriteId rs))]"
      using ok r by (simp add: tail_def rewriteIds_def)
    have l1: "\<forall>xs. vals = JArr xs \<longrightarrow> length (map rewriteId rs) = length xs"
      using len b1 by simp
    have l2: "(\<forall>xs. vals \<noteq> JArr xs) \<longrightarrow> length (map rewriteId rs) = 1"
      using len b2 by simp
    have each: "\<forall>n < length (map rewriteId rs). \<exists>kvs i m. rs ! n = JObj kvs
          \<and> map_of kvs ''_id'' = Some i
          \<and> map rewriteId rs ! n = JObj m \<and> map_of m ''_id'' = None \<and> map_of m ''id'' = Some i
          \<and> (\<forall>k. k \<noteq> ''id'' \<and> k \<noteq> ''_id'' \<longrightarrow> map_of m k = map_of kvs k)"
    proof (intro allI impI)
      fix n assume n: "n < length (map rewriteId rs)"
      then have "rs ! n \<in> set rs"
        by simp
      then obtain kvs i where k: "rs ! n = JObj kvs" and i: "map_of kvs ''_id'' = Some i"
        using ids by blast
      from rewriteId_with_id [OF i] obtain m where "rewriteId (JObj kvs) = JObj m"
        and "map_of m ''_id'' = None" and "map_of m ''id'' = Some i"
        and "\<forall>k. k \<noteq> ''id'' \<and> k \<noteq> ''_id'' \<longrightarrow> map_of m k = map_of kvs k"
        by (elim exE conjE)
      then show "\<exists>kvs i m. rs ! n = JObj kvs \<and> map_of kvs ''_id'' = Some i
          \<and> map rewriteId rs ! n = JObj m \<and> map_of m ''_id'' = None \<and> map_of m ''id'' = Some i
          \<and> (\<forall>k. k \<noteq> ''id'' \<and> k \<noteq> ''_id'' \<longrightarrow> map_of m k = map_of kvs k)"
        using n k i by simp
    qed
    show ?thesis
      apply (rule exI [of _ "map rewriteId rs"])
      apply (intro conjI)
         apply (rule t)
        apply (rule l1)
       apply (rule l2)
      apply (rule each)
      done
  qed
  have res': "\<forall>rs. \<not> truthy err \<and> res = JArr rs \<and> length rs = length batch
            \<and> (\<forall>r \<in> set rs. \<exists>kvs i. r = JObj kvs \<and> map_of kvs ''_id'' = Some i)
        \<longrightarrow> (\<exists>out. tail = [Callback JNull (JArr out)]
              \<and> (\<forall>xs. vals = JArr xs \<longrightarrow> length out = length xs)
              \<and> ((\<forall>xs. vals \<noteq> JArr xs) \<longrightarrow> length out = 1)
              \<and> (\<forall>n < length out. \<exists>kvs i m. rs ! n = JObj kvs \<and> map_of kvs ''_id'' = Some i
                    \<and> out ! n = JObj m \<and> map_of m ''_id'' = None \<and> map_of m ''id'' = Some i
                    \<and> (\<forall>k. k \<noteq> ''id'' \<and> k \<noteq> ''_id'' \<longrightarrow> map_of m k = map_of kvs k)))"
  proof (intro allI impI, elim conjE)
    fix rs
    assume "\<not> truthy err" and "res = JArr rs" and "length rs = length batch"
      and "\<forall>r \<in> set rs. \<exists>kvs i. r = JObj kvs \<and> map_of kvs ''_id'' = Some i"
    then show "\<exists>out. tail = [Callback JNull (JArr out)]
              \<and> (\<forall>xs. vals = JArr xs \<longrightarrow> length out = length xs)
              \<and> ((\<forall>xs. vals \<noteq> JArr xs) \<longrightarrow> length out = 1)
              \<and> (\<forall>n < length out. \<exists>kvs i m. rs ! n = JObj kvs \<and> map_of kvs ''_id'' = Some i
                    \<and> out ! n = JObj m \<and> map_of m ''_id'' = None \<and> map_of m ''id'' = Some i
                    \<and> (\<forall>k. k \<noteq> ''id'' \<and> k \<noteq> ''_id'' \<longrightarrow> map_of m k = map_of kvs k))"
      by (rule res)
  qed
  show ?thesis
    apply (rule exI [of _ batch])
    apply (rule exI [of _ err])
    apply (rule exI [of _ res])
    apply (rule exI [of _ s1])
    apply (rule exI [of _ tail])
    apply (intro conjI)
        apply (rule run)
       apply (rule d)
      apply (rule b1)
     apply (rule b2)
    apply (rule res')
    done
qed

theorem insert_batch_rewritten_witness:
  "(\<exists>out m.
      Collection_insert plain_Document scripted users (JObj [(''name'', JStr ''a'')])
          [(JNull, JArr [JObj [(''name'', JStr ''a''), (''_id'', JNum 7)]])]
        = (([ConnNew (config users), Open, UseCollection (identity users),
             DbInsert (JArr [JObj [(''name'', JStr ''a'')]]),
             Close, Callback JNull (JArr out)], None), [])
    \<and> length out = 1
    \<and> out ! 0 = JObj m \<and> map_of m ''_id'' = None \<and> map_of m ''id'' = Some (JNum 7)
    \<and> map_of m ''name'' = Some (JStr ''a''))
   \<and> (\<exists>out m1 m2.
      Collection_insert plain_Document scripted users
          (JArr [JObj [(''name'', JStr ''a'')], JObj [(''name'', JStr ''b'')]])
          [(JNull, JArr [JObj [(''name'', JStr ''a''), (''_id'', JNum 7)],
                         JObj [(''name'', JStr ''b''), (''_id'', JNum 8)]])]
        = (([ConnNew (config users), Open, UseCollection (identity users),
             DbInsert (JArr [JObj [(''name'', JStr ''a'')], JObj [(''name'', JStr ''b'')]]),
             Close, Callback JNull (JArr out)], None), [])
    \<and> length out = 2
    \<and> out ! 0 = JObj m1 \<and> map_of m1 ''_id'' = None \<and> map_of m1 ''id'' = Some (JNum 7)
    \<and> map_of m1 ''name'' = Some (JStr ''a'')
    \<and> out ! 1 = JObj m2 \<and> map_of m2 ''_id'' = None \<and> map_of m2 ''id'' = Some (JNum 8)
    \<and> map_of m2 ''name'' = Some (JStr ''b''))"
proof (rule conjI)
  let ?vals = "JObj [(''name'', JStr ''a'')]"
  let ?rs = "[JObj [(''name'', JStr ''a''), (''_id'', JNum 7)]]"
  let ?script = "[(JNull, JArr ?rs)]"
  from insert_batch_rewritten [where Document = plain_Document and drv = scripted
      and self = users and vals = ?vals and s = ?script]
  obtain batch err res s1 tail where
    run: "Collection_insert plain_Document scripted users ?vals ?script
       = (([ConnNew (config users), Open, UseCollection (identity users),
            DbInsert (JArr batch), Close] @ tail, None), s1)"
    and d: "drv_insert scripted (JArr batch) ?script = ((err, res), s1)"
    and b2: "(\<forall>xs. ?vals \<noteq> JArr xs) \<longrightarrow> batch = [JObj (plain_Document ?vals (schema users))]"
    and r: "\<forall>rs. \<not> truthy err \<and> res = JArr rs \<and> length rs = length batch
            \<and> (\<forall>r \<in> set rs. \<exists>kvs i. r = JObj kvs \<and> map_of kvs ''_id'' = Some i)
        \<longrightarrow> (\<exists>out. tail = [Callback JNull (JArr out)]
              \<and> (\<forall>xs. ?vals = JArr xs \<longrightarrow> length out = length xs)
              \<and> ((\<forall>xs. ?vals \<noteq> JArr xs) \<longrightarrow> length out = 1)
              \<and> (\<forall>n < length out. \<exists>kvs i m. rs ! n = JObj kvs \<and> map_of kvs ''_id'' = Some i
                    \<and> out ! n = JObj m \<and> map_of m ''_id'' = None \<and> map_of m ''id'' = Some i
                    \<and> (\<forall>k. k \<noteq> ''id'' \<and> k \<noteq> ''_id'' \<longrightarrow> map_of m k = map_of kvs k)))"
    by (elim exE conjE)
  have batch: "batch = [JObj [(''name'', JStr ''a'')]]"
    using b2 by (simp add: plain_Document_def)
  have e: "err = JNull" "res = JArr ?rs" "s1 = []"
    using d by (simp_all add: scripted_def next_reply_def)
  have pre: "\<not> truthy err \<and> res = JArr ?rs \<and> length ?rs = length batch
            \<and> (\<forall>r \<in> set ?rs. \<exists>kvs i. r = JObj kvs \<and> map_of kvs ''_id'' = Some i)"
    unfolding e batch by simp
  from r [rule_format, OF pre] obtain out where tail: "tail = [Callback JNull (JArr out)]"
    and len: "(\<forall>xs. ?vals \<noteq> JArr xs) \<longrightarrow> length out = 1"
    and each: "\<forall>n < length out. \<exists>kvs i m. ?rs ! n = JObj kvs \<and> map_of kvs ''_id'' = Some i
                    \<and> out ! n = JObj m \<and> map_of m ''_id'' = None \<and> map_of m ''id'' = Some i
                    \<and> (\<forall>k. k \<noteq> ''id'' \<and> k \<noteq> ''_id'' \<longrightarrow> map_of m k = map_of kvs k)"
    by (elim exE conjE)
  have len1: "length out = 1"
    using len by simp
  then have "0 < length out"
    by simp
  from each [rule_format, OF this]
  obtain kvs i m where k: "?rs ! 0 = JObj kvs" "map_of kvs ''_id'' = Some i"
    and o: "out ! 0 = JObj m" "map_of m ''_id'' = None" "map_of m ''id'' = Some i"
    and rest: "\<forall>k. k \<noteq> ''id'' \<and> k \<noteq> ''_id'' \<longrightarrow> map_of m k = map_of kvs k"
    by (elim exE conjE)
  have kv: "kvs = [(''name'', JStr ''a''), (''_id'', JNum 7)]"
    using k(1) by simp
  have a: "map_of m ''id'' = Some (JNum 7)"
    using k(2) o(3) unfolding kv by simp
  have a': "map_of m ''name'' = Some (JStr ''a'')"
    using rest [rule_format, of "''name''"] unfolding kv by simp
  have run': "Collection_insert plain_Document scripted users ?vals ?script
       = (([ConnNew (config users), Open, UseCollection (identity users),
            DbInsert (JArr [JObj [(''name'', JStr ''a'')]]), Close, Callback JNull (JArr out)],
           None), [])"
    using run unfolding batch tail e by simp
  show "\<exists>out m.
      Collection_insert plain_Document scripted users ?vals ?script
        = (([ConnNew (config users), Open, UseCollection (identity users),
             DbInsert (JArr [JObj [(''name'', JStr ''a'')]]),
             Close, Callback JNull (JArr out)], None), [])
    \<and> length out = 1
    \<and> out ! 0 = JObj m \<and> map_of m ''_id'' = None \<and> map_of m ''id'' = Some (JNum 7)
    \<and> map_of m ''name'' = Some (JStr ''a'')"
    apply (rule exI [of _ out])
    apply (rule exI [of _ m])
    apply (simp only: run' len1 o(1,2) a a' simp_thms)
    done
next
  let ?vals = "JArr [JObj [(''name'', JStr ''a'')], JObj [(''name'', JStr ''b'')]]"
  let ?rs = "[JObj [(''name'', JStr ''a''), (''_id'', JNum 7)],
              JObj [(''name'', JStr ''b''), (''_id'', JNum 8)]]"
  let ?script = "[(JNull, JArr ?rs)]"
  from insert_batch_rewritten [where Document = plain_Document and drv = scripted
      and self = users and vals = ?vals and s = ?script]
  obtain batch err res s1 tail where
    run: "Collection_insert plain_Document scripted users ?vals ?script
       = (([ConnNew (config users), Open, UseCollection (identity users),
            DbInsert (JArr batch), Close] @ tail, None), s1)"
    and d: "drv_insert scripted (JArr batch) ?script = ((err, res), s1)"
    and b1: "\<forall>xs. ?vals = JArr xs
               \<longrightarrow> batch = map (\<lambda>v. JObj (plain_Document v (schema users))) xs"
    and r: "\<forall>rs. \<not> truthy err \<and> res = JArr rs \<and> length rs = length batch
            \<and> (\<forall>r \<in> set rs. \<exists>kvs i. r = JObj kvs \<and> map_of kvs ''_id'' = Some i)
        \<longrightarrow> (\<exists>out. tail = [Callback JNull (JArr out)]
              \<and> (\<forall>xs. ?vals = JArr xs \<longrightarrow> length out = length xs)
              \<and> ((\<forall>xs. ?vals \<noteq> JArr xs) \<longrightarrow> length out = 1)
              \<and> (\<forall>n < length out. \<exists>kvs i m. rs ! n = JObj kvs \<and> map_of kvs ''_id'' = Some i
                    \<and> out ! n = JObj m \<and> map_of m ''_id'' = None \<and> map_of m ''id'' = Some i
                    \<and> (\<forall>k. k \<noteq> ''id'' \<and> k \<noteq> ''_id'' \<longrightarrow> map_of m k = map_of kvs k)))"
    by (elim exE conjE)
  have batch: "batch = [JObj [(''name'', JStr ''a'')], JObj [(''name'', JStr ''b'')]]"
    using b1 by (simp add: plain_Document_def)
  have e: "err = JNull" "res = JArr ?rs" "s1 = []"
    using d by (simp_all add: scripted_def next_reply_def)
  have pre: "\<not> truthy err \<and> res = JArr ?rs \<and> length ?rs = length batch
            \<and> (\<forall>r \<in> set ?rs. \<exists>kvs i. r = JObj kvs \<and> map_of kvs ''_id'' = Some i)"
    unfolding e batch by simp
  from r [rule_format, OF pre] obtain out where tail: "tail = [Callback JNull (JArr out)]"
    and len: "\<forall>xs. ?vals = JArr xs \<longrightarrow> length out = length xs"
    and each: "\<forall>n < length out. \<exists>kvs i m. ?rs ! n = JObj kvs \<and> map_of kvs ''_id'' = Some i
                    \<and> out ! n = JObj m \<and> map_of m ''_id'' = None \<and> map_of m ''id'' = Some i
                    \<and> (\<forall>k. k \<noteq> ''id'' \<and> k \<noteq> ''_id'' \<longrightarrow> map_of m k = map_of kvs k)"
    by (elim exE conjE)
  have len2: "length out = 2"
    using len by simp
  have "0 < length out" and "1 < length out"
    using len2 by simp_all
  note e0 = each [rule_format, OF \<open>0 < length out\<close>]
    and e1 = each [rule_format, OF \<open>1 < length out\<close>]
  from e0 obtain kvs1 i1 m1 where k1: "?rs ! 0 = JObj kvs1" "map_of kvs1 ''_id'' = Some i1"
    and o1: "out ! 0 = JObj m1" "map_of m1 ''_id'' = None" "map_of m1 ''id'' = Some i1"
    and r1: "\<forall>k. k \<noteq> ''id'' \<and> k \<noteq> ''_id'' \<longrightarrow> map_of m1 k = map_of kvs1 k"
    by (elim exE conjE)
  from e1 obtain kvs2 i2 m2 where k2: "?rs ! 1 = JObj kvs2" "map_of kvs2 ''_id'' = Some i2"
    and o2: "out ! 1 = JObj m2" "map_of m2 ''_id'' = None" "map_of m2 ''id'' = Some i2"
    and r2: "\<forall>k. k \<noteq> ''id'' \<and> k \<noteq> ''_id'' \<longrightarrow> map_of m2 k = map_of kvs2 k"
    by (elim exE conjE)
  have kv1: "kvs1 = [(''name'', JStr ''a''), (''_id'', JNum 7)]"
    using k1(1) by simp
  have kv2: "kvs2 = [(''name'', JStr ''b''), (''_id'', JNum 8)]"
    using k2(1) by simp
  have a: "map_of m1 ''id'' = Some (JNum 7)"
    using k1(2) o1(3) unfolding kv1 by simp
  have a': "map_of m1 ''name'' = Some (JStr ''a'')"
    using r1 [rule_format, of "''name''"] unfolding kv1 by simp
  have b: "map_of m2 ''id'' = Some (JNum 8)"
    using k2(2) o2(3) unfolding kv2 by simp
  have b': "map_of m2 ''name'' = Some (JStr ''b'')"
    using r2 [rule_format, of "''name''"] unfolding kv2 by simp
  have run': "Collection_insert plain_Document scripted users ?vals ?script
       = (([ConnNew (config users), Open, UseCollection (identity users),
            DbInsert (JArr [JObj [(''name'', JStr ''a'')], JObj [(''name'', JStr ''b'')]]),
            Close, Callback JNull (JArr out)], None), [])"
    using run unfolding batch tail e by simp
  show "\<exists>out m1 m2.
      Collection_insert plain_Document scripted users ?vals ?script
        = (([ConnNew (config users), Open, UseCollection (identity users),
             DbInsert (JArr [JObj [(''name'', JStr ''a'')], JObj [(''name'', JStr ''b'')]]),
             Close, Callback JNull (JArr out)], None), [])
    \<and> length out = 2
    \<and> out ! 0 = JObj m1 \<and> map_of m1 ''_id'' = None \<and> map_of m1 ''id'' = Some (JNum 7)
    \<and> map_of m1 ''name'' = Some (JStr ''a'')
    \<and> out ! 1 = JObj m2 \<and> map_of m2 ''_id'' = None \<and> map_of m2 ''id'' = Some (JNum 8)
    \<and> map_of m2 ''name'' = Some (JStr ''b'')"
    apply (rule exI [of _ out])
    apply (rule exI [of _ m1])
    apply (rule exI [of _ m2])
    apply (simp only: run' len2 o1(1,2) o2(1,2) a a' b b' simp_thms)
    done
qed

subsection \<open>\<^verbatim>\<open>destroy\<close>\<close>

text \<open>
  C2, as stated, fails where the driver reports a count: the store reports that three
  documents were removed, and the callback receives a list of one record, whose
  \<^verbatim>\<open>id\<close> is the count.
\<close>

theorem destroy_count_counterexample:
  "Collection_destroy plain_Query scripted users (JObj [(''where'', JObj [(''age'', JNum 30)])])
       [(JNull, JNum 3)]
     = (([ConnNew (config users), Open, UseCollection (identity users),
          DbRemove (JObj [(''age'', JNum 30)]), Close,
          Callback JNull (JArr [JObj [(''id'', JNum 3)]])], None), [])
   \<and> length [JObj [(''id'', JNum 3)]] \<noteq> (3::nat)"
  by (simp add: Collection_destroy_def plain_Query_def scripted_def next_reply_def opened_def
      obj_get_def Let_def)

text \<open>
  C2, amended. When the criteria parse and the driver's \<^verbatim>\<open>remove\<close> answers without error
  with a value that is not an array (a count or a bare identifier), the callback
  receives the one-element list \<^verbatim>\<open>[{id: value}]\<close>, after the close.
\<close>

theorem destroy_single_result:
  assumes "Query crit = Inr q"
    and "drv_remove drv (obj_get (criteria q) ''where'') s = ((err, res), s1)"
    and "\<not> truthy err"
    and "\<forall>rs. res \<noteq> JArr rs"
  shows "Collection_destroy Query drv self crit s
           = (([ConnNew (config self), Open, UseCollection (identity self),
                DbRemove (obj_get (criteria q) ''where''), Close,
                Callback JNull (JArr [JObj [(''id'', res)]])], None), s1)"
  using assms by (cases res) (simp_all add: Collection_destroy_def Let_def opened_def)

theorem destroy_single_result_witness:
  "Collection_destroy plain_Query scripted users (JObj [(''where'', JObj [(''age'', JNum 30)])])
       [(JNull, JNum 1)]
     = (([ConnNew (config users), Open, UseCollection (identity users),
          DbRemove (JObj [(''age'', JNum 30)]), Close,
          Callback JNull (JArr [JObj [(''id'', JNum 1)]])], None), [])"
proof -
  let ?crit = "JObj [(''where'', JObj [(''age'', JNum 30)])]"
  let ?q = "\<lparr>criteria = [(''where'', JObj [(''age'', JNum 30)])], aggregate = JBool False,
             aggregateGroup = JUndefined\<rparr>"
  have q: "plain_Query ?crit = Inr ?q"
    by (simp add: plain_Query_def)
  have r: "drv_remove scripted (obj_get (criteria ?q) ''where'') [(JNull, JNum 1)]
             = ((JNull, JNum 1), [])"
    by (simp add: scripted_def next_reply_def)
  have e: "\<not> truthy JNull"
    by simp
  have n: "\<forall>rs. JNum 1 \<noteq> JArr rs"
    by simp
  show ?thesis
    using destroy_single_result [where Query = plain_Query and self = users, OF q r e n]
    by (simp add: obj_get_def)
qed

subsection \<open>\<^verbatim>\<open>update\<close>\<close>

text \<open>
  C1 at a failing input: the lookup finds no record and the driver answers with the
  empty array, which is truthy, so \<^verbatim>\<open>!records\<close> is false. The update is issued, the
  re-fetch asks for no identifier, and the callback receives no error and an empty
  list.
\<close>

theorem update_empty_lookup_still_writes:
  "Collection_update plain_Query plain_Document scripted users
       (JObj [(''where'', JObj [(''name'', JStr ''a'')])]) (JObj [(''name'', JStr ''b'')])
       [(JNull, JArr []), (JNull, JNum 0), (JNull, JArr [])]
     = (([ConnNew (config users), Open, UseCollection (identity users),
          DbFind (JObj [(''name'', JStr ''a'')]) None,
          DbUpdate (JObj [(''name'', JStr ''a'')]) (JObj [(''$set'', JObj [(''name'', JStr ''b'')])])
            (JObj [(''multi'', JBool True)]),
          DbFind (JObj [(''_id'', JObj [(''$in'', JArr [])])]) None,
          Close, Callback JNull (JArr [])], None), [])"
  by (simp add: Collection_update_def plain_Query_def plain_Document_def scripted_def
      next_reply_def opened_def obj_get_def strip_ids_def rewriteIds_def Let_def)

text \<open>
  C5 at a failing input: the values carry the identifier \<^verbatim>\<open>id: 0\<close>. The guard
  \<^verbatim>\<open>if(values.id)\<close> is false for it, the field is not deleted, and the update sets it.
\<close>

theorem update_keeps_falsy_id:
  "Collection_update plain_Query plain_Document scripted users
       (JObj [(''where'', JObj [(''name'', JStr ''a'')])])
       (JObj [(''id'', JNum 0), (''name'', JStr ''b'')])
       [(JNull, JArr [JObj [(''_id'', JNum 7), (''name'', JStr ''a'')]]),
        (JNull, JNum 1),
        (JNull, JArr [JObj [(''_id'', JNum 7), (''name'', JStr ''b''), (''id'', JNum 0)]])]
     = (([ConnNew (config users), Open, UseCollection (identity users),
          DbFind (JObj [(''name'', JStr ''a'')]) None,
          DbUpdate (JObj [(''name'', JStr ''a'')])
            (JObj [(''$set'', JObj [(''id'', JNum 0), (''name'', JStr ''b'')])])
            (JObj [(''multi'', JBool True)]),
          DbFind (JObj [(''_id'', JObj [(''$in'', JArr [JNum 7])])]) None,
          Close, Callback JNull (JArr [JObj [(''name'', JStr ''b''), (''id'', JNum 7)]])],
         None), [])"
  by (simp add: Collection_update_def plain_Query_def plain_Document_def scripted_def
      next_reply_def opened_def obj_get_def strip_ids_def rewriteIds_def rewriteId_def Let_def
      AList.update.simps AList.delete_eq)

subsection \<open>Exit paths without a callback\<close>

text \<open>
  C8 at two failing inputs. \<^verbatim>\<open>destroy\<close>, when the driver reports a list: the handle is
  closed, then reading \<^verbatim>\<open>resultArray\<close> raises a \<^verbatim>\<open>ReferenceError\<close>. \<^verbatim>\<open>find\<close> with the
  aggregate flag, when the driver reports an error and no results: the handle is
  closed, then \<^verbatim>\<open>results.map\<close> raises a \<^verbatim>\<open>TypeError\<close>. In both runs the callback is
  never invoked.
\<close>

theorem callback_never_fires:
  "Collection_destroy plain_Query scripted users (JObj [(''where'', JObj [(''age'', JNum 30)])])
       [(JNull, JArr [JNum 7, JNum 8])]
     = (([ConnNew (config users), Open, UseCollection (identity users),
          DbRemove (JObj [(''age'', JNum 30)]), Close], Some ReferenceError), [])
   \<and> Collection_find grouping_Query scripted users (JObj [(''groupBy'', JArr [JStr ''name''])])
       [(JError ''connection lost'', JUndefined)]
     = (([ConnNew (config users), Open, UseCollection (identity users),
          DbAggregate (JArr [JObj [(''$match'', JObj [(''active'', JBool True)])],
                             JObj [(''$group'', JObj [(''_id'', JObj [(''name'', JStr ''$name'')]),
                                                      (''total'', JObj [(''$sum'', JNum 1)])])]]),
          Close], Some TypeError), [])"
  by (simp add: Collection_destroy_def Collection_find_def plain_Query_def grouping_Query_def
      scripted_def next_reply_def opened_def obj_get_def js_or_def Let_def)

section \<open>Properties of the constructor\<close>

subsection \<open>\<^verbatim>\<open>buildIndexes\<close>\<close>

lemma on_field_index_descriptor [simp]:
  "on_field key (index_descriptor k u) \<longleftrightarrow> k = key"
  by (auto simp: on_field_def index_descriptor_def)

lemma buildIndexes_loop_extends:
  "buildIndexes_loop h sch keys acc = Inr r \<Longrightarrow> \<exists>ds. r = acc @ ds"
proof (induction keys arbitrary: acc)
  case Nil
  then show ?case by simp
next
  case (Cons k keys)
  from Cons.prems obtain acc' ds' where "buildIndexes_loop h sch keys (acc @ acc') = Inr r"
    by (fastforce split: sum.splits if_splits intro: exI [of _ "[]"])
  from Cons.IH [OF this] show ?case
    by auto
qed

lemma buildIndexes_loop_other_keys:
  assumes "buildIndexes_loop h sch keys acc = Inr r" and "key \<notin> set keys"
  shows "filter (on_field key) r = filter (on_field key) acc"
  using assms
proof (induction keys arbitrary: acc)
  case Nil
  then show ?case by simp
next
  case (Cons k keys)
  then show ?case
    by (auto split: sum.splits if_splits)
qed

lemma buildIndexes_loop_this_key:
  assumes "buildIndexes_loop h sch keys acc = Inr r" and "distinct keys" and "key \<in> set keys"
    and "hget h sch key = Inr f" and "hget h f ''unique'' = Inr u" and "hget h f ''index'' = Inr i"
  shows "filter (on_field key) r
           = filter (on_field key) acc
             @ (if htruthy u then [index_descriptor key True]
                else if htruthy i then [index_descriptor key False] else [])"
  using assms
proof (induction keys arbitrary: acc)
  case Nil
  then show ?case by simp
next
  case (Cons k keys)
  show ?case
  proof (cases "k = key")
    case True
    then have notin: "key \<notin> set keys"
      using Cons.prems(2) by simp
    show ?thesis
      using Cons.prems(1,4,5,6) True buildIndexes_loop_other_keys [OF _ notin]
      by (auto split: if_splits)
  next
    case False
    then have "key \<in> set keys" and "distinct keys"
      using Cons.prems(2,3) by auto
    then show ?thesis
      using Cons.prems(1,4,5,6) False Cons.IH
      by (auto split: sum.splits if_splits)
  qed
qed

text \<open>
  C10. Let \<open>key\<close> be a field of the schema whose \<^verbatim>\<open>index\<close> flag is truthy. Among the
  descriptors \<^verbatim>\<open>buildIndexes\<close> adds there is exactly one for \<open>key\<close>: with options
  \<^verbatim>\<open>{sparse: true, unique: true}\<close> when the \<^verbatim>\<open>unique\<close> flag is truthy too, with options
  \<^verbatim>\<open>{sparse: true}\<close> and no \<^verbatim>\<open>unique\<close> when it is not.
\<close>

theorem buildIndexes_one_descriptor:
  assumes "buildIndexes h self = Inr self'"
    and "schema self = HRef a" and "distinct (map fst (heap_at h a))"
    and "key \<in> fst ` set (heap_at h a)"
    and "hget h (HRef a) key = Inr f"
    and "hget h f ''unique'' = Inr u" and "hget h f ''index'' = Inr i"
    and "htruthy i"
  shows "\<exists>ds. indexes self' = indexes self @ ds
           \<and> [d \<leftarrow> ds. \<exists>opts. d = JObj [(''index'', JObj [(key, JNum 1)]), (''options'', opts)]]
               = [JObj [(''index'', JObj [(key, JNum 1)]),
                        (''options'',
                         JObj (if htruthy u then [(''sparse'', JBool True), (''unique'', JBool True)]
                               else [(''sparse'', JBool True)]))]]"
proof -
  let ?keys = "map fst (heap_at h a)"
  from assms(1,2) obtain r where loop: "buildIndexes_loop h (HRef a) ?keys (indexes self) = Inr r"
    and self': "indexes self' = r"
    by (auto simp: buildIndexes_def split: sum.splits)
  from buildIndexes_loop_extends [OF loop] obtain ds where ds: "r = indexes self @ ds"
    by blast
  have k: "key \<in> set ?keys"
    using assms(4) by simp
  have "filter (on_field key) r = filter (on_field key) (indexes self)
           @ (if htruthy u then [index_descriptor key True]
              else if htruthy i then [index_descriptor key False] else [])"
    using buildIndexes_loop_this_key [OF loop assms(3) k assms(5,6,7)] .
  then have "filter (on_field key) ds = [index_descriptor key (htruthy u)]"
    using assms(8) unfolding ds by simp
  then have "[d \<leftarrow> ds. \<exists>opts. d = JObj [(''index'', JObj [(key, JNum 1)]), (''options'', opts)]]
               = [JObj [(''index'', JObj [(key, JNum 1)]),
                        (''options'',
                         JObj (if htruthy u then [(''sparse'', JBool True), (''unique'', JBool True)]
                               else [(''sparse'', JBool True)]))]]"
    unfolding on_field_def index_descriptor_def .
  then show ?thesis
    using self' ds by blast
qed

theorem buildIndexes_one_descriptor_witness:
  "(\<exists>ds. indexes \<lparr>identity = ''user'', config = JObj [], schema = HRef 2,
                   indexes = [index_descriptor ''id'' True, index_descriptor ''email'' False]\<rparr>
            = [] @ ds
         \<and> [d \<leftarrow> ds. \<exists>opts. d = JObj [(''index'', JObj [(''id'', JNum 1)]), (''options'', opts)]]
             = [JObj [(''index'', JObj [(''id'', JNum 1)]),
                      (''options'', JObj [(''sparse'', JBool True), (''unique'', JBool True)])]])
   \<and> (\<exists>ds. indexes \<lparr>identity = ''user'', config = JObj [], schema = HRef 2,
                   indexes = [index_descriptor ''id'' True, index_descriptor ''email'' False]\<rparr>
            = [] @ ds
         \<and> [d \<leftarrow> ds. \<exists>opts. d = JObj [(''index'', JObj [(''email'', JNum 1)]), (''options'', opts)]]
             = [JObj [(''index'', JObj [(''email'', JNum 1)]),
                      (''options'', JObj [(''sparse'', JBool True)])]])"
proof -
  let ?self = "\<lparr>identity = ''user'', config = JObj [], schema = HRef 2, indexes = []\<rparr>"
  let ?self' = "\<lparr>identity = ''user'', config = JObj [], schema = HRef 2,
                 indexes = [index_descriptor ''id'' True, index_descriptor ''email'' False]\<rparr>"
  have b: "buildIndexes sample_heap ?self = Inr ?self'"
    by code_simp
  have s: "schema ?self = HRef 2"
    by simp
  have d: "distinct (map fst (heap_at sample_heap 2))"
    by (simp add: heap_at_def sample_heap_def)
  have k1: "''id'' \<in> fst ` set (heap_at sample_heap 2)"
    and k2: "''email'' \<in> fst ` set (heap_at sample_heap 2)"
    by (simp_all add: heap_at_def sample_heap_def)
  have f1: "hget sample_heap (HRef 2) ''id'' = Inr (HRef 3)"
    and f2: "hget sample_heap (HRef 2) ''email'' = Inr (HRef 4)"
    by (simp_all add: heap_at_def sample_heap_def hobj_get_def)
  have u1: "hget sample_heap (HRef 3) ''unique'' = Inr (HBool True)"
    and i1: "hget sample_heap (HRef 3) ''index'' = Inr (HBool True)"
    and u2: "hget sample_heap (HRef 4) ''unique'' = Inr HUndefined"
    and i2: "hget sample_heap (HRef 4) ''index'' = Inr (HBool True)"
    by (simp_all add: heap_at_def sample_heap_def hobj_get_def)
  have t: "htruthy (HBool True)"
    by simp
  show ?thesis
    using buildIndexes_one_descriptor [OF b s d k1 f1 u1 i1 t]
      buildIndexes_one_descriptor [OF b s d k2 f2 u2 i2 t]
    by simp
qed

subsection \<open>The clone and the caller's heap\<close>

lemma fresh_val_simps [simp]:
  "fresh_val n HUndefined" "fresh_val n HNull" "fresh_val n (HBool b)" "fresh_val n (HNum i)"
  "fresh_val n (HStr s)" "fresh_val n (HRef a) \<longleftrightarrow> n \<le> a"
  by (simp_all add: fresh_val_def)

lemma clone_val_simps [simp]:
  "clone_val h HUndefined" "clone_val h HNull" "clone_val h (HBool b)" "clone_val h (HNum i)"
  "clone_val h (HStr s)"
  "clone_val h (HRef a) \<longleftrightarrow> length h \<le> a \<or> kind_at h a \<noteq> PlainObject"
  by (simp_all add: clone_val_def)

lemma fresh_clone_val:
  "fresh_val (length h) v \<Longrightarrow> clone_val h v"
  by (cases v) auto

lemma clone_props_simps [simp]:
  "clone_props h []"
  "clone_props h ((k, v) # ps) \<longleftrightarrow> clone_val h v \<and> clone_props h ps"
  by (simp_all add: clone_props_def)


























lemma finite_unseen [simp]: "finite (unseen n st)"
  by (simp add: unseen_def)











section \<open>Further properties of \<^verbatim>\<open>insert\<close>, \<^verbatim>\<open>find\<close> and \<^verbatim>\<open>update\<close>\<close>

text \<open>
  Every run of \<^verbatim>\<open>insert\<close> has one shape, whatever the driver answers: the shaped
  values go to the driver as one batch (a value that is not a list as a batch of
  one), the handle is closed, and the callback is invoked once, last.
\<close>

theorem insert_run_shape:
  "\<exists>batch e r s1. Collection_insert Document drv self vals s
       = (([ConnNew (config self), Open, UseCollection (identity self),
            DbInsert (JArr batch), Close, Callback e r], None), s1)
     \<and> (\<forall>xs. vals = JArr xs \<longrightarrow> batch = map (\<lambda>v. JObj (Document v (schema self))) xs)
     \<and> ((\<forall>xs. vals \<noteq> JArr xs) \<longrightarrow> batch = [JObj (Document vals (schema self))])"
proof -
  define batch where "batch = map (\<lambda>v. JObj (Document v (schema self))) (to_array vals)"
  obtain err res s1 where d: "drv_insert drv (JArr batch) s = ((err, res), s1)"
    by (metis prod.exhaust)
  have run: "\<exists>e r. Collection_insert Document drv self vals s
       = (([ConnNew (config self), Open, UseCollection (identity self),
            DbInsert (JArr batch), Close, Callback e r], None), s1)"
    using d by (simp add: Collection_insert_def Let_def opened_def batch_def)
  have b1: "\<forall>xs. vals = JArr xs \<longrightarrow> batch = map (\<lambda>v. JObj (Document v (schema self))) xs"
    by (simp add: batch_def to_array_def)
  have b2: "(\<forall>xs. vals \<noteq> JArr xs) \<longrightarrow> batch = [JObj (Document vals (schema self))]"
    by (cases vals) (simp_all add: batch_def to_array_def)
  from run obtain e r where "Collection_insert Document drv self vals s
       = (([ConnNew (config self), Open, UseCollection (identity self),
            DbInsert (JArr batch), Close, Callback e r], None), s1)"
    by (elim exE)
  then show ?thesis
    using b1 b2 by blast
qed

theorem insert_run_shape_witness:
  "\<exists>e r s1. Collection_insert plain_Document scripted users (JObj [(''name'', JStr ''a'')])
        [(JError ''duplicate key'', JUndefined)]
       = (([ConnNew (config users), Open, UseCollection (identity users),
            DbInsert (JArr [JObj [(''name'', JStr ''a'')]]), Close, Callback e r], None), s1)"
proof -
  let ?vals = "JObj [(''name'', JStr ''a'')]"
  from insert_run_shape [where Document = plain_Document and drv = scripted and self = users
      and vals = ?vals and s = "[(JError ''duplicate key'', JUndefined)]"]
  obtain batch e r s1 where
    run: "Collection_insert plain_Document scripted users ?vals
              [(JError ''duplicate key'', JUndefined)]
       = (([ConnNew (config users), Open, UseCollection (identity users),
            DbInsert (JArr batch), Close, Callback e r], None), s1)"
    and b2: "(\<forall>xs. ?vals \<noteq> JArr xs) \<longrightarrow> batch = [JObj (plain_Document ?vals (schema users))]"
    by (elim exE conjE)
  have "batch = [JObj [(''name'', JStr ''a'')]]"
    using b2 by (simp add: plain_Document_def)
  then show ?thesis
    using run by blast
qed

text \<open>
  The flattening of one aggregate record follows JavaScript's property order: the
  fields of the group identifier are copied in the order array indices first,
  ascending, then the other keys; and the record lists its keys in that order too.
\<close>

theorem extract_grouped_key_order:
  "extract_grouped
     (JObj [(''_id'', JObj [(''name'', JStr ''x''), (''7'', JNum 3), (''2'', JNum 1)]),
            (''total'', JNum 1)])
     = Inr (JObj [(''2'', JNum 1), (''7'', JNum 3), (''total'', JNum 1), (''name'', JStr ''x'')])
   \<and> for_in_keys (JObj [(''name'', JStr ''x''), (''7'', JNum 3), (''2'', JNum 1)])
     = [''2'', ''7'', ''name'']"
  by code_simp

text \<open>
  When the lookup of \<^verbatim>\<open>update\<close> answers without error with a falsy value for the
  records, the handle is closed and the callback receives the error
  \<^verbatim>\<open>Could not find any records to update\<close>; no update is issued.
\<close>

theorem update_reports_missing_records:
  assumes "Query crit = Inr q"
    and "drv_find drv (obj_get (criteria q) ''where'') None s = ((err, records), s1)"
    and "\<not> truthy err" and "\<not> truthy records"
  shows "Collection_update Query Document drv self crit vals s
           = (([ConnNew (config self), Open, UseCollection (identity self),
                DbFind (obj_get (criteria q) ''where'') None, Close,
                Callback (JError ''Could not find any records to update'') JUndefined],
               None), s1)"
  using assms by (simp add: Collection_update_def Let_def opened_def)

theorem update_reports_missing_records_witness:
  "Collection_update plain_Query plain_Document scripted users
       (JObj [(''where'', JObj [(''name'', JStr ''a'')])]) (JObj [(''name'', JStr ''b'')])
       [(JNull, JNull)]
     = (([ConnNew (config users), Open, UseCollection (identity users),
          DbFind (JObj [(''name'', JStr ''a'')]) None, Close,
          Callback (JError ''Could not find any records to update'') JUndefined],
         None), [])"
proof -
  let ?crit = "JObj [(''where'', JObj [(''name'', JStr ''a'')])]"
  let ?q = "\<lparr>criteria = [(''where'', JObj [(''name'', JStr ''a'')])], aggregate = JBool False,
             aggregateGroup = JUndefined\<rparr>"
  have q: "plain_Query ?crit = Inr ?q"
    by (simp add: plain_Query_def)
  have f: "drv_find scripted (obj_get (criteria ?q) ''where'') None [(JNull, JNull)]
             = ((JNull, JNull), [])"
    by (simp add: scripted_def next_reply_def)
  have n: "\<not> truthy JNull"
    by simp
  show ?thesis
    using update_reports_missing_records [where Query = plain_Query and self = users
        and Document = plain_Document and vals = "JObj [(''name'', JStr ''b'')]", OF q f n n]
    by (simp add: obj_get_def)
qed

text \<open>
  What \<^verbatim>\<open>update\<close> strips from the values: \<^verbatim>\<open>id\<close> and \<^verbatim>\<open>_id\<close>, each when its value
  is truthy; every other field is kept.
\<close>

theorem strip_ids_removes_truthy:
  "(truthy (obj_get vals ''id'') \<longrightarrow> map_of (strip_ids vals) ''id'' = None)
   \<and> (truthy (obj_get vals ''_id'') \<longrightarrow> map_of (strip_ids vals) ''_id'' = None)
   \<and> (\<forall>k. k \<noteq> ''id'' \<and> k \<noteq> ''_id'' \<longrightarrow> map_of (strip_ids vals) k = map_of vals k)"
  by (auto simp: strip_ids_def Let_def obj_get_def delete_conv')

theorem strip_ids_removes_truthy_witness:
  "truthy (obj_get [(''id'', JNum 5), (''_id'', JStr ''x''), (''name'', JStr ''b'')] ''id'')
   \<and> truthy (obj_get [(''id'', JNum 5), (''_id'', JStr ''x''), (''name'', JStr ''b'')] ''_id'')
   \<and> map_of (strip_ids [(''id'', JNum 5), (''_id'', JStr ''x''), (''name'', JStr ''b'')]) ''id'' = None
   \<and> map_of (strip_ids [(''id'', JNum 5), (''_id'', JStr ''x''), (''name'', JStr ''b'')]) ''_id'' = None
   \<and> map_of (strip_ids [(''id'', JNum 5), (''_id'', JStr ''x''), (''name'', JStr ''b'')]) ''name''
       = Some (JStr ''b'')"
  using strip_ids_removes_truthy [of "[(''id'', JNum 5), (''_id'', JStr ''x''), (''name'', JStr ''b'')]"]
  by (simp add: obj_get_def)

text \<open>
  The successful run of \<^verbatim>\<open>update\<close>: the lookup answers with records, one at least; the
  update goes to the same filter with \<^verbatim>\<open>$set\<close> of the stripped values and
  \<^verbatim>\<open>{multi: true}\<close>; the re-fetch asks for the \<^verbatim>\<open>_id\<close> of every record of the lookup,
  in order; the callback receives what the re-fetch answers, through \<^verbatim>\<open>rewriteIds\<close>.
\<close>

theorem update_refetches_captured_ids:
  assumes "Query crit = Inr q"
    and "wh = obj_get (criteria q) ''where''"
    and "drv_find drv wh None s = ((e1, JArr rs), s1)" and "\<not> truthy e1"
    and "rs \<noteq> []" and "\<forall>r \<in> set rs. \<exists>kvs. r = JObj kvs"
    and "ids = map (\<lambda>r. case r of JObj kvs \<Rightarrow> obj_get kvs ''_id'' | _ \<Rightarrow> JUndefined) rs"
    and "upd = JObj [(''$set'', JObj (strip_ids (Document vals (schema self))))]"
    and "drv_update drv wh upd (JObj [(''multi'', JBool True)]) s1 = ((e2, res), s2)"
    and "\<not> truthy e2"
    and "drv_find drv (JObj [(''_id'', JObj [(''$in'', JArr ids)])]) None s2 = ((e3, recs), s3)"
    and "\<not> truthy e3"
  shows "Collection_update Query Document drv self crit vals s
           = (([ConnNew (config self), Open, UseCollection (identity self),
                DbFind wh None,
                DbUpdate wh upd (JObj [(''multi'', JBool True)]),
                DbFind (JObj [(''_id'', JObj [(''$in'', JArr ids)])]) None,
                Close, Callback JNull (rewriteIds recs)], None), s3)"
proof -
  have "map_raising (\<lambda>r. get_prop r ''_id'') rs
          = Inr (map (\<lambda>r. case r of JObj kvs \<Rightarrow> obj_get kvs ''_id'' | _ \<Rightarrow> JUndefined) rs)"
    using assms(6) by (intro map_raising_all_Inr) auto
  then have c: "collect_ids (JArr rs) = Inr ids"
    using assms(7) by simp
  show ?thesis
    using assms(1-4,8-12) c by (simp add: Collection_update_def Let_def opened_def)
qed

theorem update_refetches_captured_ids_witness:
  "Collection_update plain_Query plain_Document scripted users
       (JObj [(''where'', JObj [(''name'', JStr ''a'')])])
       (JObj [(''id'', JNum 7), (''name'', JStr ''b'')])
       [(JNull, JArr [JObj [(''_id'', JNum 7), (''name'', JStr ''a'')]]),
        (JNull, JNum 1),
        (JNull, JArr [JObj [(''_id'', JNum 7), (''name'', JStr ''b'')]])]
     = (([ConnNew (config users), Open, UseCollection (identity users),
          DbFind (JObj [(''name'', JStr ''a'')]) None,
          DbUpdate (JObj [(''name'', JStr ''a'')]) (JObj [(''$set'', JObj [(''name'', JStr ''b'')])])
            (JObj [(''multi'', JBool True)]),
          DbFind (JObj [(''_id'', JObj [(''$in'', JArr [JNum 7])])]) None,
          Close, Callback JNull (JArr [JObj [(''name'', JStr ''b''), (''id'', JNum 7)]])],
         None), [])"
proof -
  let ?crit = "JObj [(''where'', JObj [(''name'', JStr ''a'')])]"
  let ?q = "\<lparr>criteria = [(''where'', JObj [(''name'', JStr ''a'')])], aggregate = JBool False,
             aggregateGroup = JUndefined\<rparr>"
  let ?wh = "JObj [(''name'', JStr ''a'')]"
  let ?vals = "JObj [(''id'', JNum 7), (''name'', JStr ''b'')]"
  let ?rs = "[JObj [(''_id'', JNum 7), (''name'', JStr ''a'')]]"
  let ?recs = "JArr [JObj [(''_id'', JNum 7), (''name'', JStr ''b'')]]"
  let ?upd = "JObj [(''$set'', JObj [(''name'', JStr ''b'')])]"
  have q: "plain_Query ?crit = Inr ?q"
    by (simp add: plain_Query_def)
  have w: "?wh = obj_get (criteria ?q) ''where''"
    by (simp add: obj_get_def)
  have f1: "drv_find scripted ?wh None [(JNull, JArr ?rs), (JNull, JNum 1), (JNull, ?recs)]
              = ((JNull, JArr ?rs), [(JNull, JNum 1), (JNull, ?recs)])"
    by (simp add: scripted_def next_reply_def)
  have n: "\<not> truthy JNull"
    by simp
  have ne: "?rs \<noteq> []"
    by simp
  have o: "\<forall>r \<in> set ?rs. \<exists>kvs. r = JObj kvs"
    by simp
  have i: "[JNum 7] = map (\<lambda>r. case r of JObj kvs \<Rightarrow> obj_get kvs ''_id'' | _ \<Rightarrow> JUndefined) ?rs"
    by (simp add: obj_get_def)
  have u: "?upd = JObj [(''$set'', JObj (strip_ids (plain_Document ?vals (schema users))))]"
    by (simp add: strip_ids_def plain_Document_def obj_get_def Let_def AList.delete_eq)
  have f2: "drv_update scripted ?wh ?upd (JObj [(''multi'', JBool True)])
              [(JNull, JNum 1), (JNull, ?recs)] = ((JNull, JNum 1), [(JNull, ?recs)])"
    by (simp add: scripted_def next_reply_def)
  have f3: "drv_find scripted (JObj [(''_id'', JObj [(''$in'', JArr [JNum 7])])]) None
              [(JNull, ?recs)] = ((JNull, ?recs), [])"
    by (simp add: scripted_def next_reply_def)
  have r: "rewriteIds ?recs = JArr [JObj [(''name'', JStr ''b''), (''id'', JNum 7)]]"
    by (simp add: rewriteIds_def rewriteId_def AList.delete_eq)
  show ?thesis
    using update_refetches_captured_ids [where Query = plain_Query and Document = plain_Document
        and self = users, OF q w f1 n ne o i u f2 n f3 n]
    unfolding r .
qed

text \<open>
  On every exit path of \<^verbatim>\<open>update\<close> (a driver error at any of its three calls, the
  missing-records error, success), provided the records of the lookup are an array
  of objects when they are truthy, the handle is closed once, then the callback is
  invoked once, and nothing follows.
\<close>

lemma collect_ids_objects:
  assumes "\<forall>r \<in> set rs. \<exists>kvs. r = JObj kvs"
  shows "\<exists>ids. collect_ids (JArr rs) = Inr ids"
proof -
  have "map_raising (\<lambda>r. get_prop r ''_id'') rs
          = Inr (map (\<lambda>r. case r of JObj kvs \<Rightarrow> obj_get kvs ''_id'' | _ \<Rightarrow> JUndefined) rs)"
    using assms by (intro map_raising_all_Inr) auto
  then show ?thesis
    by simp
qed

theorem update_closes_then_calls_back:
  assumes "Query crit = Inr q"
    and "drv_find drv (obj_get (criteria q) ''where'') None s = ((e1, records), s1)"
    and "truthy e1 \<or> \<not> truthy records
         \<or> (\<exists>rs. records = JArr rs \<and> (\<forall>r \<in> set rs. \<exists>kvs. r = JObj kvs))"
  shows "\<exists>evs e r s'.
           Collection_update Query Document drv self crit vals s
             = ((evs @ [Close, Callback e r], None), s')
         \<and> Close \<notin> set evs \<and> (\<forall>e' r'. Callback e' r' \<notin> set evs)"
proof -
  let ?wh = "obj_get (criteria q) ''where''"
  let ?evs1 = "[ConnNew (config self), Open, UseCollection (identity self), DbFind ?wh None]"
  let ?run = "Collection_update Query Document drv self crit vals s"
  have shape: "\<exists>evs e r s'. ?run = ((evs @ [Close, Callback e r], None), s')
         \<and> Close \<notin> set evs \<and> (\<forall>e' r'. Callback e' r' \<notin> set evs)"
    if "?run = ((evs @ [Close, Callback e r], None), s')" and "Close \<notin> set evs"
      and "\<forall>e' r'. Callback e' r' \<notin> set evs" for evs e r s'
    using that by blast
  consider (err) "truthy e1" | (none) "\<not> truthy e1" "\<not> truthy records"
    | (some) rs where "\<not> truthy e1" "records = JArr rs" "\<forall>r \<in> set rs. \<exists>kvs. r = JObj kvs"
    using assms(3) by blast
  then show ?thesis
  proof cases
    case err
    have "?run = ((?evs1 @ [Close, Callback e1 JUndefined], None), s1)"
      using assms(1,2) err by (simp add: Collection_update_def Let_def opened_def)
    then show ?thesis
      by (rule shape) simp_all
  next
    case none
    have "?run = ((?evs1 @ [Close,
        Callback (JError ''Could not find any records to update'') JUndefined], None), s1)"
      using assms(1,2) none by (simp add: Collection_update_def Let_def opened_def)
    then show ?thesis
      by (rule shape) simp_all
  next
    case some
    obtain ids where ids: "collect_ids (JArr rs) = Inr ids"
      using collect_ids_objects [OF some(3)] by blast
    let ?upd = "JObj [(''$set'', JObj (strip_ids (Document vals (schema self))))]"
    let ?opts = "JObj [(''multi'', JBool True)]"
    let ?flt = "JObj [(''_id'', JObj [(''$in'', JArr ids)])]"
    obtain e2 res s2 where u: "drv_update drv ?wh ?upd ?opts s1 = ((e2, res), s2)"
      by (metis prod.exhaust)
    obtain e3 recs s3 where f: "drv_find drv ?flt None s2 = ((e3, recs), s3)"
      by (metis prod.exhaust)
    show ?thesis
    proof (cases "truthy e2")
      case True
      have "?run = ((?evs1 @ [DbUpdate ?wh ?upd ?opts] @ [Close, Callback e2 JUndefined], None), s2)"
        using assms(1,2) some(1,2) ids u True
        by (simp add: Collection_update_def Let_def opened_def)
      then have "?run = (((?evs1 @ [DbUpdate ?wh ?upd ?opts]) @ [Close, Callback e2 JUndefined], None), s2)"
        by simp
      then show ?thesis
        by (rule shape) simp_all
    next
      case False
      have "\<exists>e r. ?run = (((?evs1 @ [DbUpdate ?wh ?upd ?opts, DbFind ?flt None])
                            @ [Close, Callback e r], None), s3)"
        using assms(1,2) some(1,2) ids u f False
        by (simp add: Collection_update_def Let_def opened_def)
      then obtain e r where "?run = (((?evs1 @ [DbUpdate ?wh ?upd ?opts, DbFind ?flt None])
                            @ [Close, Callback e r], None), s3)"
        by blast
      then show ?thesis
        by (rule shape) simp_all
    qed
  qed
qed

theorem update_closes_then_calls_back_witness:
  "\<exists>evs e r s'.
     Collection_update plain_Query plain_Document scripted users
         (JObj [(''where'', JObj [(''name'', JStr ''a'')])]) (JObj [(''name'', JStr ''b'')])
         [(JNull, JArr [JObj [(''_id'', JNum 7), (''name'', JStr ''a'')]]),
          (JError ''write failed'', JUndefined)]
       = ((evs @ [Close, Callback e r], None), s')
   \<and> Close \<notin> set evs \<and> (\<forall>e' r'. Callback e' r' \<notin> set evs)"
proof -
  let ?crit = "JObj [(''where'', JObj [(''name'', JStr ''a'')])]"
  let ?q = "\<lparr>criteria = [(''where'', JObj [(''name'', JStr ''a'')])], aggregate = JBool False,
             aggregateGroup = JUndefined\<rparr>"
  let ?rs = "[JObj [(''_id'', JNum 7), (''name'', JStr ''a'')]]"
  let ?script = "[(JNull, JArr ?rs), (JError ''write failed'', JUndefined)]"
  have q: "plain_Query ?crit = Inr ?q"
    by (simp add: plain_Query_def)
  have f: "drv_find scripted (obj_get (criteria ?q) ''where'') None ?script
             = ((JNull, JArr ?rs), [(JError ''write failed'', JUndefined)])"
    by (simp add: scripted_def next_reply_def)
  have o: "truthy JNull \<or> \<not> truthy (JArr ?rs)
         \<or> (\<exists>rs. JArr ?rs = JArr rs \<and> (\<forall>r \<in> set rs. \<exists>kvs. r = JObj kvs))"
    by simp
  show ?thesis
    using update_closes_then_calls_back [where Query = plain_Query and self = users
        and Document = plain_Document and drv = scripted, OF q f o] .
qed

end
